theory Spec2Isabelle
  imports Complex_Main
begin

section \<open>Data model\<close>

text \<open>
  The program is a NumPy pipeline (\<^verbatim>\<open>src/dehaze.py\<close>). An image is an \<open>M \<times> N \<times> 3\<close>
  array, modelled as a list of rows, each a list of pixels, each a list of the three
  channel values; a dark channel or transmission map is an \<open>M \<times> N\<close> array, a list of rows
  of scalars. NumPy arrays are rectangular, which \<open>wf_image\<close> and \<open>wf_grid\<close> state.

  The array entries are 64-bit floats in the program. The picture, its dark channel and
  the atmosphere light are finite and are real numbers here; rounding and overflow are
  not modelled. From the division by the atmosphere light on, an entry can also be
  \<^verbatim>\<open>inf\<close>, \<^verbatim>\<open>-inf\<close> or \<^verbatim>\<open>nan\<close>, which NumPy produces (with a warning, without
  raising) where a divisor is zero: these entries are of type \<open>flt\<close>. A zero divisor is
  the positive zero.

  Whatever NumPy raises in the functions below is a \<^verbatim>\<open>ValueError\<close>.
\<close>

datatype flt = NaN | NInf | Fin real | PInf

type_synonym pixel = "real list"
type_synonym image = "pixel list list"
type_synonym grid = "real list list"
type_synonym fimage = "flt list list list"
type_synonym fgrid = "flt list list"

datatype error = ValueError | NumericError

text \<open>
  The order of \<open>flt\<close> is the one in which \<^verbatim>\<open>np.min\<close> returns the least entry:
  \<^verbatim>\<open>nan\<close> first, since \<^verbatim>\<open>np.min\<close> returns \<^verbatim>\<open>nan\<close> as soon as one entry is \<^verbatim>\<open>nan\<close>,
  then \<^verbatim>\<open>-inf\<close>, the numbers, and \<^verbatim>\<open>inf\<close>. It is not the comparison of two floats, which
  is \<open>at_least\<close> below.
\<close>

instantiation flt :: linorder
begin

fun less_eq_flt :: "flt \<Rightarrow> flt \<Rightarrow> bool" where
  "less_eq_flt NaN b = True"
| "less_eq_flt NInf NaN = False"
| "less_eq_flt NInf b = True"
| "less_eq_flt (Fin x) NaN = False"
| "less_eq_flt (Fin x) NInf = False"
| "less_eq_flt (Fin x) (Fin y) = (x \<le> y)"
| "less_eq_flt (Fin x) PInf = True"
| "less_eq_flt PInf PInf = True"
| "less_eq_flt PInf b = False"

definition less_flt :: "flt \<Rightarrow> flt \<Rightarrow> bool" where
  "less_flt a b \<longleftrightarrow> a \<le> b \<and> \<not> b \<le> a"

instance
proof
  fix x y z :: flt
  show "x < y \<longleftrightarrow> x \<le> y \<and> \<not> y \<le> x"
    by (simp add: less_flt_def)
  show "x \<le> x"
    by (cases x) simp_all
  show "x \<le> y \<Longrightarrow> y \<le> z \<Longrightarrow> x \<le> z"
    by (cases x; cases y; cases z) simp_all
  show "x \<le> y \<Longrightarrow> y \<le> x \<Longrightarrow> x = y"
    by (cases x; cases y) simp_all
  show "x \<le> y \<or> y \<le> x"
    by (cases x; cases y) auto
qed

end

text \<open>The comparison \<^verbatim>\<open>t >= x\<close> of a float with a number: false of \<^verbatim>\<open>nan\<close>.\<close>

fun at_least :: "flt \<Rightarrow> real \<Rightarrow> bool" where
  "at_least NaN x = False"
| "at_least NInf x = False"
| "at_least (Fin v) x = (x \<le> v)"
| "at_least PInf x = True"

text \<open>
  The arithmetic of the pipeline on such entries: \<^verbatim>\<open>x / a\<close> of two numbers,
  \<^verbatim>\<open>c * t\<close> and \<^verbatim>\<open>c - t\<close> and \<^verbatim>\<open>t + c\<close> of a number and a float, \<^verbatim>\<open>x / t\<close> of a
  number by a float, and \<^verbatim>\<open>np.maximum(t, c)\<close>, which passes \<^verbatim>\<open>nan\<close> on.
\<close>

definition fdiv :: "real \<Rightarrow> real \<Rightarrow> flt" where
  "fdiv x a =
     (if a \<noteq> 0 then Fin (x / a) else if 0 < x then PInf else if x < 0 then NInf else NaN)"

fun fscale :: "real \<Rightarrow> flt \<Rightarrow> flt" where
  "fscale c NaN = NaN"
| "fscale c (Fin x) = Fin (c * x)"
| "fscale c PInf = (if 0 < c then PInf else if c < 0 then NInf else NaN)"
| "fscale c NInf = (if 0 < c then NInf else if c < 0 then PInf else NaN)"

fun fsub_from :: "real \<Rightarrow> flt \<Rightarrow> flt" where
  "fsub_from c NaN = NaN"
| "fsub_from c (Fin x) = Fin (c - x)"
| "fsub_from c PInf = NInf"
| "fsub_from c NInf = PInf"

fun fadd :: "flt \<Rightarrow> real \<Rightarrow> flt" where
  "fadd (Fin x) c = Fin (x + c)"
| "fadd t c = t"

fun fdiv_by :: "real \<Rightarrow> flt \<Rightarrow> flt" where
  "fdiv_by x NaN = NaN"
| "fdiv_by x (Fin t) = fdiv x t"
| "fdiv_by x PInf = Fin 0"
| "fdiv_by x NInf = Fin 0"

fun np_maximum :: "flt \<Rightarrow> real \<Rightarrow> flt" where
  "np_maximum NaN c = NaN"
| "np_maximum NInf c = Fin c"
| "np_maximum (Fin x) c = Fin (max x c)"
| "np_maximum PInf c = PInf"

definition wf_image :: "'a list list list \<Rightarrow> nat \<Rightarrow> nat \<Rightarrow> bool" where
  "wf_image I M N \<longleftrightarrow>
     length I = M \<and> list_all (\<lambda>row. length row = N \<and> list_all (\<lambda>px. length px = 3) row) I"

definition wf_grid :: "'a list list \<Rightarrow> nat \<Rightarrow> nat \<Rightarrow> bool" where
  "wf_grid g M N \<longleftrightarrow> length g = M \<and> list_all (\<lambda>row. length row = N) g"

text \<open>\<^verbatim>\<open>a.shape\<close> of the two leading axes.\<close>

definition shape2 :: "'a list list \<Rightarrow> nat \<times> nat" where
  "shape2 a = (length a, case a of [] \<Rightarrow> 0 | row # _ \<Rightarrow> length row)"

section \<open>NumPy primitives\<close>

text \<open>
  \<^verbatim>\<open>np.min\<close> of a flattened array; a zero-size array has no minimum and raises. On
  floats the least entry is the least in the order of \<open>flt\<close>.
\<close>

definition np_min :: "'a::linorder list \<Rightarrow> error + 'a" where
  "np_min xs = (case xs of [] \<Rightarrow> Inl ValueError | x # ys \<Rightarrow> Inr (fold min ys x))"

definition np_max :: "real list \<Rightarrow> error + real" where
  "np_max xs = (case xs of [] \<Rightarrow> Inl ValueError | x # ys \<Rightarrow> Inr (fold max ys x))"

text \<open>\<^verbatim>\<open>np.max(rows, axis=0)\<close>: the elementwise maximum of the rows; no row, no maximum.\<close>

definition np_max_axis0 :: "pixel list \<Rightarrow> error + pixel" where
  "np_max_axis0 rows =
     (case rows of [] \<Rightarrow> Inl ValueError | r # rs \<Rightarrow> Inr (fold (\<lambda>a b. map2 max b a) rs r))"

text \<open>
  \<^verbatim>\<open>np.pad(I, ((h, h), (h, h), (0, 0)), 'edge')\<close>: \<open>h\<close> copies of the first and of the
  last entry around each of the two leading axes. A negative width raises, and so does
  extending an axis that has no entry to copy.
\<close>

definition pad_edge :: "nat \<Rightarrow> 'a list \<Rightarrow> 'a list" where
  "pad_edge h xs = replicate h (hd xs) @ xs @ replicate h (last xs)"

definition np_pad :: "'a list list list \<Rightarrow> int \<Rightarrow> error + 'a list list list" where
  "np_pad I h =
     (let (M, N) = shape2 I in
      if h < 0 then Inl ValueError
      else if 0 < h \<and> (M = 0 \<or> N = 0) then Inl ValueError
      else Inr (pad_edge (nat h) (map (pad_edge (nat h)) I)))"

text \<open>The body of a loop that fills an array: the first cell that raises ends it.\<close>

fun collect :: "(error + 'a) list \<Rightarrow> error + 'a list" where
  "collect [] = Inr []"
| "collect (x # xs) =
     (case x of Inl e \<Rightarrow> Inl e
      | Inr v \<Rightarrow> (case collect xs of Inl e \<Rightarrow> Inl e | Inr vs \<Rightarrow> Inr (v # vs)))"

text \<open>\<^verbatim>\<open>int(x)\<close> truncates towards zero; \<^verbatim>\<open>a[:k]\<close> counts a negative \<open>k\<close> from the end.\<close>

definition py_int :: "real \<Rightarrow> int" where
  "py_int x = (if 0 \<le> x then \<lfloor>x\<rfloor> else \<lceil>x\<rceil>)"

definition slice_to :: "int \<Rightarrow> 'a list \<Rightarrow> 'a list" where
  "slice_to k xs = (if 0 \<le> k then take (nat k) xs else take (length xs - nat (- k)) xs)"

text \<open>
  \<^verbatim>\<open>a.argsort()\<close>: the indices of \<open>a\<close> in ascending order of their entries. Equal entries
  keep their index order here; NumPy's default sort promises no order among them.
\<close>

definition argsort :: "real list \<Rightarrow> nat list" where
  "argsort a = sort_key (\<lambda>i. a ! i) [0..<length a]"

section \<open>The pipeline\<close>

subsection \<open>\<^verbatim>\<open>get_dark_channel\<close>\<close>

text \<open>\<^verbatim>\<open>padded[i:i + w, j:j + w, :]\<close>\<close>

definition window :: "'a list list list \<Rightarrow> nat \<Rightarrow> nat \<Rightarrow> nat \<Rightarrow> 'a list list list" where
  "window padded i j w = map (\<lambda>row. take w (drop j row)) (take w (drop i padded))"

text \<open>
  \<^verbatim>\<open>w / 2\<close> is Python 2's integer division, which rounds down as \<open>div\<close> does. The
  function is applied to the picture and, in \<open>get_transmission\<close>, to an array of
  floats.
\<close>

definition get_dark_channel :: "'a::linorder list list list \<Rightarrow> int \<Rightarrow> error + 'a list list" where
  "get_dark_channel I w =
     (let (M, N) = shape2 I in
      case np_pad I (w div 2) of
        Inl e \<Rightarrow> Inl e
      | Inr padded \<Rightarrow>
          collect (map (\<lambda>i. collect (map (\<lambda>j.
            np_min (concat (concat (window padded i j (nat w))))) [0..<N])) [0..<M]))"

subsection \<open>\<^verbatim>\<open>get_atmosphere\<close>\<close>

text \<open>The local \<^verbatim>\<open>search_idx\<close>: \<^verbatim>\<open>(-flat_dark).argsort()[:int(M * N * p)]\<close>.\<close>

definition search_idx :: "grid \<Rightarrow> real \<Rightarrow> nat list" where
  "search_idx dark_ch p =
     (let (M, N) = shape2 dark_ch; flat_dark = concat dark_ch in
      slice_to (py_int (real (M * N) * p)) (argsort (map uminus flat_dark)))"

text \<open>\<^verbatim>\<open>I.reshape(M * N, 3)\<close> raises unless \<open>I\<close> has \<open>M * N * 3\<close> entries.\<close>

definition get_atmosphere :: "image \<Rightarrow> grid \<Rightarrow> real \<Rightarrow> error + pixel" where
  "get_atmosphere I dark_ch p =
     (let (M, N) = shape2 dark_ch; flat_I = concat I in
      if length (concat flat_I) \<noteq> M * N * 3 then Inl ValueError
      else np_max_axis0 (map (\<lambda>i. flat_I ! i) (search_idx dark_ch p)))"

subsection \<open>\<^verbatim>\<open>get_transmission\<close>\<close>

text \<open>
  \<^verbatim>\<open>I / A\<close>, the vector \<open>A\<close> broadcast over the pixels. Where a component of \<open>A\<close> is
  zero the quotient is \<^verbatim>\<open>inf\<close>, \<^verbatim>\<open>-inf\<close> or, for \<^verbatim>\<open>0 / 0\<close>, \<^verbatim>\<open>nan\<close>; nothing is
  raised.
\<close>

definition div_image :: "image \<Rightarrow> pixel \<Rightarrow> fimage" where
  "div_image I A = map (map (\<lambda>px. map2 fdiv px A)) I"

definition get_transmission :: "image \<Rightarrow> pixel \<Rightarrow> real \<Rightarrow> int \<Rightarrow> error + fgrid" where
  "get_transmission I A omega w =
     (case get_dark_channel (div_image I A) w of
        Inl e \<Rightarrow> Inl e
      | Inr dark \<Rightarrow> Inr (map (map (\<lambda>d. fsub_from 1 (fscale omega d))) dark))"

subsection \<open>\<^verbatim>\<open>dehaze_raw\<close>\<close>

text \<open>
  Modelled from the spec: \<^verbatim>\<open>guided_filter\<close> (module \<^verbatim>\<open>guidedfilter\<close>, imported by
  \<^verbatim>\<open>dehaze.py\<close>) is not among the sources. The spec gives its interface only: guidance
  image, input map, radius and \<open>eps\<close> to a map of the input's shape, or a failure
  (\<open>NumericError\<close>). It is the parameter \<open>gf\<close> of the pipeline.
\<close>

type_synonym guided_filter = "fimage \<Rightarrow> fgrid \<Rightarrow> int \<Rightarrow> real \<Rightarrow> error + fgrid"

text \<open>\<^verbatim>\<open>(I - I.min()) / (I.max() - I.min())\<close>, which is \<^verbatim>\<open>0 / 0\<close> on a picture of one value.\<close>

definition normalize :: "image \<Rightarrow> error + fimage" where
  "normalize I =
     (case np_min (concat (concat I)) of
        Inl e \<Rightarrow> Inl e
      | Inr lo \<Rightarrow>
          (case np_max (concat (concat I)) of
             Inl e \<Rightarrow> Inl e
           | Inr hi \<Rightarrow> Inr (map (map (map (\<lambda>v. fdiv (v - lo) (hi - lo)))) I)))"

text \<open>
  The result is \<^verbatim>\<open>(Idark, atm_light, rawt, refinedt)\<close>. The \<^verbatim>\<open>print\<close> statements are
  left out; the extrema they print exist whenever the stages before them succeeded.
\<close>

definition dehaze_raw ::
  "guided_filter \<Rightarrow> image \<Rightarrow> real \<Rightarrow> real \<Rightarrow> int \<Rightarrow> real \<Rightarrow> real \<Rightarrow> bool \<Rightarrow> int \<Rightarrow> real
     \<Rightarrow> error + (grid \<times> pixel \<times> fgrid \<times> fgrid)" where
  "dehaze_raw gf I t_min atm_max w p omega guided r eps =
     (case get_dark_channel I w of
        Inl e \<Rightarrow> Inl e
      | Inr Idark \<Rightarrow>
     (case get_atmosphere I Idark p of
        Inl e \<Rightarrow> Inl e
      | Inr atm \<Rightarrow>
     (let atm_light = map (\<lambda>a. min a atm_max) atm in
      case get_transmission I atm_light omega w of
        Inl e \<Rightarrow> Inl e
      | Inr rawt0 \<Rightarrow>
     (let rawt = map (map (\<lambda>t. np_maximum t t_min)) rawt0 in
      if guided then
        (case normalize I of
           Inl e \<Rightarrow> Inl e
         | Inr normI \<Rightarrow>
             (case gf normI rawt r eps of
                Inl e \<Rightarrow> Inl e
              | Inr refinedt \<Rightarrow> Inr (Idark, atm_light, rawt, refinedt)))
      else Inr (Idark, atm_light, rawt, rawt)))))"

subsection \<open>\<^verbatim>\<open>get_radiance\<close>\<close>

text \<open>
  \<^verbatim>\<open>tiledt\<close> holds \<^verbatim>\<open>trans\<close> (here \<open>transm\<close>) in each of its three channels, so the
  cell \<open>(i, j, c)\<close> of the result is
  \<^verbatim>\<open>(I[i, j, c] - atm_light[c]) / trans[i, j] + atm_light[c]\<close>.
\<close>

definition get_radiance :: "image \<Rightarrow> pixel \<Rightarrow> fgrid \<Rightarrow> fimage" where
  "get_radiance I atm_light transm =
     map2 (\<lambda>row trow.
         map2 (\<lambda>px t. map2 (\<lambda>v a. fadd (fdiv_by (v - a) t) a) px atm_light) row trow)
       I transm"

subsection \<open>\<^verbatim>\<open>to_img\<close> and \<^verbatim>\<open>dehaze\<close>\<close>

definition max_color_val :: nat where
  "max_color_val = 256"

text \<open>
  \<^verbatim>\<open>np.maximum(np.minimum(raw, max_color_val - 1), 0).astype(np.uint8)\<close>, on one entry:
  the cast drops the fraction of a value that is already between 0 and 255. The two
  bounds pass \<^verbatim>\<open>nan\<close> on, and the cast of \<^verbatim>\<open>nan\<close> gives 0.
\<close>

definition cut :: "real \<Rightarrow> nat" where
  "cut v = nat \<lfloor>max (min v (real (max_color_val - 1))) 0\<rfloor>"

fun fcut :: "flt \<Rightarrow> nat" where
  "fcut NaN = 0"
| "fcut NInf = 0"
| "fcut (Fin v) = cut v"
| "fcut PInf = max_color_val - 1"

definition to_img2 :: "fgrid \<Rightarrow> nat list list" where
  "to_img2 raw = map (map fcut) raw"

definition to_img3 :: "fimage \<Rightarrow> nat list list list" where
  "to_img3 raw = map (map (map fcut)) raw"

text \<open>
  \<^verbatim>\<open>img\<close> is a decoded RGB picture, 8-bit values; the result is the list of the five
  pictures, here a tuple since two kinds of array are in it.
\<close>

definition dehaze ::
  "guided_filter \<Rightarrow> nat list list list \<Rightarrow> real \<Rightarrow> real \<Rightarrow> int \<Rightarrow> real \<Rightarrow> real \<Rightarrow> bool \<Rightarrow> int
     \<Rightarrow> real
     \<Rightarrow> error + (nat list list \<times> nat list list \<times> nat list list
                  \<times> nat list list list \<times> nat list list list)" where
  "dehaze gf img t_min atm_max w p omega guided r eps =
     (let I = map (map (map real)) img in
      case dehaze_raw gf I t_min atm_max w p omega guided r eps of
        Inl e \<Rightarrow> Inl e
      | Inr (Idark, atm_light, rawt, refinedt) \<Rightarrow>
          (let white = real (max_color_val - 1) in
           Inr (map (map cut) Idark,
                to_img2 (map (map (\<lambda>t. fscale white t)) rawt),
                to_img2 (map (map (\<lambda>t. fscale white t)) refinedt),
                to_img3 (get_radiance I atm_light rawt),
                to_img3 (get_radiance I atm_light refinedt))))"

section \<open>Reference definitions\<close>

text \<open>
  The windowed minimum as the specification words it, to compare \<open>get_dark_channel\<close>
  with. A position outside the image reads the nearest border pixel: each coordinate is
  clamped into its axis. The window of size \<open>w\<close> around \<open>(i, j)\<close> reaches
  \<open>w div 2\<close> positions before and \<open>(w - 1) div 2\<close> positions after it on either axis:
  that is \<open>w\<close> positions, the same number on both sides when \<open>w\<close> is odd, one more
  before than after when \<open>w\<close> is even.
\<close>

definition clamp_index :: "nat \<Rightarrow> int \<Rightarrow> nat" where
  "clamp_index n z = nat (max 0 (min (int n - 1) z))"

definition edge_at :: "'a list list list \<Rightarrow> int \<Rightarrow> int \<Rightarrow> 'a list" where
  "edge_at I y x =
     (let (M, N) = shape2 I in I ! clamp_index M y ! clamp_index N x)"

definition window_offsets :: "int \<Rightarrow> int list" where
  "window_offsets w = [- (w div 2) .. (w - 1) div 2]"

definition dark_channel_spec :: "'a::linorder list list list \<Rightarrow> int \<Rightarrow> nat \<Rightarrow> nat \<Rightarrow> 'a" where
  "dark_channel_spec I w i j =
     Min (set (concat (concat
       (map (\<lambda>dy. map (\<lambda>dx. edge_at I (int i + dy) (int j + dx)) (window_offsets w))
          (window_offsets w)))))"

text \<open>All entries of an image are at least 0.\<close>

definition nonneg_image :: "image \<Rightarrow> bool" where
  "nonneg_image I \<longleftrightarrow> list_all (list_all (list_all (\<lambda>v. 0 \<le> v))) I"

text \<open>
  A stand-in for the guided filter that answers with a fixed map, to run the guided
  branch of the pipeline on a concrete input.
\<close>

definition gf_stub :: "fgrid \<Rightarrow> guided_filter" where
  "gf_stub q G t r eps = Inr q"

section \<open>Auxiliary facts\<close>

subsection \<open>Reductions and loops\<close>

text \<open>
  A loop whose cells all succeed returns the grid of their values, and the reductions of
  a non-empty array are the least and the greatest of its entries.
\<close>

lemma collect_map_Inr:
  "(\<And>x. x \<in> set xs \<Longrightarrow> g x = Inr (f x)) \<Longrightarrow> collect (map g xs) = Inr (map f xs)"
  by (induction xs) simp_all

lemma np_min_Min: "xs \<noteq> [] \<Longrightarrow> np_min xs = Inr (Min (set xs))"
proof (cases xs)
  case (Cons a list)
  then show ?thesis
    using Min.set_eq_fold [of a list] by (simp add: np_min_def)
qed simp

lemma np_max_Max: "xs \<noteq> [] \<Longrightarrow> np_max xs = Inr (Max (set xs))"
proof (cases xs)
  case (Cons a list)
  then show ?thesis
    using Max.set_eq_fold [of a list] by (simp add: np_max_def)
qed simp

subsection \<open>Edge padding and windows\<close>

text \<open>
  Reading the padded array at \<open>k\<close> is reading the array at \<open>k - h\<close> clamped into its
  range; hence a slice of the padded image is a table of clamped reads of the image.
\<close>

lemma length_pad_edge: "length (pad_edge h xs) = length xs + 2 * h"
  by (simp add: pad_edge_def)

lemma pad_edge_nth:
  assumes "xs \<noteq> []" and "k < length xs + 2 * h"
  shows "pad_edge h xs ! k = xs ! clamp_index (length xs) (int k - int h)"
proof -
  consider "k < h" | "h \<le> k" "k < h + length xs" | "h + length xs \<le> k"
    by linarith
  then show ?thesis
  proof cases
    case 1
    then show ?thesis
      using assms by (simp add: pad_edge_def nth_append clamp_index_def hd_conv_nth)
  next
    case 2
    then have "clamp_index (length xs) (int k - int h) = k - h"
      by (simp add: clamp_index_def)
    moreover have "k - h < length xs"
      using 2 by linarith
    ultimately show ?thesis
      using 2 by (simp add: pad_edge_def nth_append)
  next
    case 3
    then have "clamp_index (length xs) (int k - int h) = length xs - 1"
      using assms by (simp add: clamp_index_def)
    with 3 assms show ?thesis
      by (simp add: pad_edge_def nth_append last_conv_nth)
  qed
qed

lemma take_drop_nths:
  "i + w \<le> length xs \<Longrightarrow> take w (drop i xs) = map (\<lambda>k. xs ! k) [i..<i + w]"
  by (rule nth_equalityI) simp_all


lemma wf_image_rows:
  "wf_image I M N \<Longrightarrow> i < M \<Longrightarrow> length (I ! i) = N"
  by (simp add: wf_image_def list_all_length)

lemma wf_image_pixels:
  "wf_image I M N \<Longrightarrow> i < M \<Longrightarrow> j < N \<Longrightarrow> length (I ! i ! j) = 3"
  by (simp add: wf_image_def list_all_length)

lemma wf_image_shape2:
  "wf_image I M N \<Longrightarrow> 0 < M \<Longrightarrow> shape2 I = (M, N)"
  by (cases I) (auto simp: wf_image_def shape2_def)

lemma clamp_index_less: "0 < n \<Longrightarrow> clamp_index n z < n"
  by (simp add: clamp_index_def)

lemma window_nths:
  assumes "wf_image I M N" "0 < M" "0 < N" "i < M" "j < N" "w \<le> 2 * h + 1"
  shows "window (pad_edge h (map (pad_edge h) I)) i j w =
     map (\<lambda>k. map (\<lambda>l. I ! clamp_index M (int k - int h) ! clamp_index N (int l - int h))
       [j..<j + w]) [i..<i + w]"
proof -
  let ?P = "pad_edge h (map (pad_edge h) I)"
  have len: "length I = M" using assms(1) by (simp add: wf_image_def)
  have lenP: "length ?P = M + 2 * h" by (simp add: length_pad_edge len)
  have rows: "take w (drop i ?P) = map (\<lambda>k. ?P ! k) [i..<i + w]"
    using assms lenP by (intro take_drop_nths) simp
  have row: "?P ! k = pad_edge h (I ! clamp_index M (int k - int h))" if "k < M + 2 * h" for k
  proof -
    have "?P ! k = map (pad_edge h) I ! clamp_index M (int k - int h)"
      using pad_edge_nth [of "map (pad_edge h) I" k h] that len assms(2) by auto
    then show ?thesis
      using clamp_index_less [OF assms(2)] len by simp
  qed
  have cols: "take w (drop j (pad_edge h r)) = map (\<lambda>l. r ! clamp_index N (int l - int h)) [j..<j + w]"
    if "length r = N" for r
  proof -
    have "take w (drop j (pad_edge h r)) = map (\<lambda>l. pad_edge h r ! l) [j..<j + w]"
      using assms that by (intro take_drop_nths) (simp add: length_pad_edge)
    also have "\<dots> = map (\<lambda>l. r ! clamp_index N (int l - int h)) [j..<j + w]"
    proof (rule map_cong [OF refl])
      fix l assume "l \<in> set [j..<j + w]"
      then have "l < length r + 2 * h"
        using assms that by simp
      moreover have "r \<noteq> []"
        using that assms(3) by auto
      ultimately show "pad_edge h r ! l = r ! clamp_index N (int l - int h)"
        using pad_edge_nth [of r l h] that by simp
    qed
    finally show ?thesis .
  qed
  have "window ?P i j w = map (\<lambda>k. take w (drop j (?P ! k))) [i..<i + w]"
    by (simp add: window_def rows)
  also have "\<dots> = map (\<lambda>k. take w (drop j (pad_edge h (I ! clamp_index M (int k - int h))))) [i..<i + w]"
    using row assms by auto
  also have "\<dots> = map (\<lambda>k. map (\<lambda>l. I ! clamp_index M (int k - int h) ! clamp_index N (int l - int h))
       [j..<j + w]) [i..<i + w]"
  proof (rule map_cong [OF refl])
    fix k assume "k \<in> set [i..<i + w]"
    have "length (I ! clamp_index M (int k - int h)) = N"
      using wf_image_rows [OF assms(1)] clamp_index_less [OF assms(2)] by simp
    from cols [OF this]
    show "take w (drop j (pad_edge h (I ! clamp_index M (int k - int h)))) =
      map (\<lambda>l. I ! clamp_index M (int k - int h) ! clamp_index N (int l - int h)) [j..<j + w]" .
  qed
  finally show ?thesis .
qed


lemma set_window_offsets: "set (window_offsets w) = {- (w div 2) .. (w - 1) div 2}"
  by (simp add: window_offsets_def)

lemma window_set_eq:
  assumes "0 < w"
  shows "(\<lambda>k. int k - int (nat (w div 2))) ` {i..<i + nat w} = (\<lambda>d. int i + d) ` {- (w div 2) .. (w - 1) div 2}"
proof (intro set_eqI iffI)
  fix z assume "z \<in> (\<lambda>k. int k - int (nat (w div 2))) ` {i..<i + nat w}"
  then obtain k where "k \<in> {i..<i + nat w}" and "z = int k - int (nat (w div 2))"
    by blast
  then have k: "i \<le> k" "k < i + nat w" "z = int k - int (nat (w div 2))"
    by simp_all
  have "z = int i + (int k - int i - w div 2)"
    using k assms by simp
  moreover have "int k - int i - w div 2 \<in> {- (w div 2) .. (w - 1) div 2}"
    using k assms by auto
  ultimately show "z \<in> (\<lambda>d. int i + d) ` {- (w div 2) .. (w - 1) div 2}"
    by blast
next
  fix z assume "z \<in> (\<lambda>d. int i + d) ` {- (w div 2) .. (w - 1) div 2}"
  then obtain d where "d \<in> {- (w div 2) .. (w - 1) div 2}" and "z = int i + d"
    by blast
  then have d: "- (w div 2) \<le> d" "d \<le> (w - 1) div 2" "z = int i + d"
    by simp_all
  let ?k = "nat (int i + d + w div 2)"
  have "i \<le> ?k" "?k < i + nat w" "z = int ?k - int (nat (w div 2))"
    using d assms by auto
  then show "z \<in> (\<lambda>k. int k - int (nat (w div 2))) ` {i..<i + nat w}"
    by (metis (no_types, lifting) atLeastLessThan_iff image_eqI)
qed


lemma window_values:
  assumes "wf_image I M N" "0 < M" "0 < N" "i < M" "j < N" "0 < w"
  shows "set (concat (concat (window (pad_edge (nat (w div 2)) (map (pad_edge (nat (w div 2))) I)) i j (nat w))))
    = set (concat (concat (map (\<lambda>dy. map (\<lambda>dx. edge_at I (int i + dy) (int j + dx))
         (window_offsets w)) (window_offsets w))))"
proof -
  define h where "h = nat (w div 2)"
  have wh: "nat w \<le> 2 * h + 1"
    using assms(6) unfolding h_def by linarith
  have "set (concat (concat (window (pad_edge h (map (pad_edge h) I)) i j (nat w))))
    = (\<Union>y\<in>(\<lambda>k. int k - int h) ` {i..<i + nat w}.
        \<Union>x\<in>(\<lambda>l. int l - int h) ` {j..<j + nat w}. set (I ! clamp_index M y ! clamp_index N x))"
    by (simp add: window_nths [OF assms(1-5) wh])
  also have "\<dots> = (\<Union>y\<in>(\<lambda>d. int i + d) ` {- (w div 2) .. (w - 1) div 2}.
        \<Union>x\<in>(\<lambda>d. int j + d) ` {- (w div 2) .. (w - 1) div 2}. set (I ! clamp_index M y ! clamp_index N x))"
    unfolding h_def window_set_eq [OF assms(6)] ..
  also have "\<dots> = set (concat (concat (map (\<lambda>dy. map (\<lambda>dx. edge_at I (int i + dy) (int j + dx))
         (window_offsets w)) (window_offsets w))))"
    by (simp add: edge_at_def wf_image_shape2 [OF assms(1,2)] set_window_offsets del: image_add_atLeastAtMost)
  finally show ?thesis
    unfolding h_def .
qed

lemma window_nonempty:
  assumes "wf_image I M N" "0 < M" "0 < N" "i < M" "j < N" "0 < w"
  shows "concat (concat (map (\<lambda>dy. map (\<lambda>dx. edge_at I (int i + dy) (int j + dx))
         (window_offsets w)) (window_offsets w))) \<noteq> []"
proof -
  have z: "0 \<in> set (window_offsets w)"
    using assms(6) by (simp add: set_window_offsets)
  have "length (edge_at I (int i) (int j)) = 3"
    using assms wf_image_pixels [OF assms(1)] clamp_index_less
    by (simp add: edge_at_def wf_image_shape2 [OF assms(1,2)])
  then have "edge_at I (int i + 0) (int j + 0) \<noteq> []"
    by auto
  with z show ?thesis
    by (simp del: add_0_right) blast
qed

lemma get_dark_channel_spec:
  assumes "wf_image I M N" "0 < M" "0 < N" "0 < w"
  shows "get_dark_channel I w = Inr (map (\<lambda>i. map (\<lambda>j. dark_channel_spec I w i j) [0..<N]) [0..<M])"
proof -
  let ?P = "pad_edge (nat (w div 2)) (map (pad_edge (nat (w div 2))) I)"
  have pad: "np_pad I (w div 2) = Inr ?P"
    using assms by (simp add: np_pad_def wf_image_shape2 [OF assms(1,2)])
  have cell: "np_min (concat (concat (window ?P i j (nat w)))) = Inr (dark_channel_spec I w i j)"
    if "i < M" "j < N" for i j
  proof -
    have eq: "set (concat (concat (window ?P i j (nat w))))
      = set (concat (concat (map (\<lambda>dy. map (\<lambda>dx. edge_at I (int i + dy) (int j + dx))
         (window_offsets w)) (window_offsets w))))"
      using window_values [OF assms(1-3) that assms(4)] .
    have "set (concat (concat (window ?P i j (nat w)))) \<noteq> {}"
      unfolding eq using window_nonempty [OF assms(1-3) that assms(4)] by (simp only: set_empty not_False_eq_True)
    then have "concat (concat (window ?P i j (nat w))) \<noteq> []"
      by (simp only: set_empty not_False_eq_True)
    from np_min_Min [OF this] show ?thesis
      unfolding dark_channel_spec_def eq .
  qed
  have row: "collect (map (\<lambda>j. np_min (concat (concat (window ?P i j (nat w))))) [0..<N])
     = Inr (map (\<lambda>j. dark_channel_spec I w i j) [0..<N])" if "i < M" for i
    using cell [OF that] by (rule collect_map_Inr) simp
  have "collect (map (\<lambda>i. collect (map (\<lambda>j. np_min (concat (concat (window ?P i j (nat w))))) [0..<N])) [0..<M])
     = Inr (map (\<lambda>i. map (\<lambda>j. dark_channel_spec I w i j) [0..<N]) [0..<M])"
    using row by (rule collect_map_Inr) simp
  then show ?thesis
    by (simp add: get_dark_channel_def wf_image_shape2 [OF assms(1,2)] pad)
qed


subsection \<open>Shapes\<close>

lemma length_concat_const:
  "(\<And>x. x \<in> set xs \<Longrightarrow> length x = n) \<Longrightarrow> length (concat xs) = length xs * n"
  by (induction xs) simp_all

lemma wf_image_flat:
  assumes "wf_image I M N"
  shows "length (concat I) = M * N"
    and "\<And>px. px \<in> set (concat I) \<Longrightarrow> length px = 3"
    and "length (concat (concat I)) = M * N * 3"
proof -
  have rows: "\<And>row. row \<in> set I \<Longrightarrow> length row = N"
    and pxs: "\<And>row px. row \<in> set I \<Longrightarrow> px \<in> set row \<Longrightarrow> length px = 3"
    and len: "length I = M"
    using assms by (auto simp: wf_image_def list_all_iff)
  show 1: "length (concat I) = M * N"
    using length_concat_const [of I N] rows len by simp
  show 2: "length px = 3" if "px \<in> set (concat I)" for px
    using that pxs by auto
  show "length (concat (concat I)) = M * N * 3"
    using length_concat_const [of "concat I" 3] 1 2 by simp
qed

lemma wf_grid_flat:
  assumes "wf_grid g M N"
  shows "length (concat g) = M * N"
  using assms length_concat_const [of g N] by (auto simp: wf_grid_def list_all_iff)

lemma wf_grid_shape2: "wf_grid g M N \<Longrightarrow> 0 < M \<Longrightarrow> shape2 g = (M, N)"
  by (cases g) (auto simp: wf_grid_def shape2_def)

subsection \<open>Sorting and selection\<close>

text \<open>
  \<open>argsort\<close> returns every index once, in ascending order of the entries, so no index
  beyond the first \<open>k\<close> has a smaller entry than one among them.
\<close>

lemma set_argsort: "set (argsort a) = {..<length a}"
  by (auto simp: argsort_def)

lemma distinct_argsort: "distinct (argsort a)"
  by (simp add: argsort_def)

lemma length_argsort: "length (argsort a) = length a"
  by (simp add: argsort_def)

lemma sorted_argsort: "sorted (map (\<lambda>i. a ! i) (argsort a))"
  by (simp add: argsort_def)

lemma sorted_take_drop_le:
  assumes "sorted (map f xs)" "x \<in> set (take k xs)" "y \<in> set (drop k xs)"
  shows "f x \<le> f y"
proof -
  have "sorted (map f (take k xs) @ map f (drop k xs))"
    using assms(1) by (simp flip: map_append)
  then show ?thesis
    using assms(2,3) by (simp add: sorted_append)
qed

lemma argsort_take_smallest:
  assumes "s \<in> set (take k (argsort a))" "u < length a" "u \<notin> set (take k (argsort a))"
  shows "a ! s \<le> a ! u"
proof -
  have "set (argsort a) = set (take k (argsort a)) \<union> set (drop k (argsort a))"
    by (metis append_take_drop_id set_append)
  moreover have "u \<in> set (argsort a)"
    using assms(2) by (simp add: set_argsort)
  ultimately have "u \<in> set (drop k (argsort a))"
    using assms(3) by blast
  with sorted_take_drop_le [OF sorted_argsort assms(1)] show ?thesis .
qed

lemma fold_map2_max:
  assumes "length r = n" "\<And>x. x \<in> set rs \<Longrightarrow> length x = n"
  shows "length (fold (\<lambda>a b. map2 max b a) rs r) = n
    \<and> (\<forall>c<n. fold (\<lambda>a b. map2 max b a) rs r ! c = Max (insert (r ! c) ((\<lambda>x. x ! c) ` set rs)))"
  using assms
proof (induction rs arbitrary: r)
  case Nil
  then show ?case by simp
next
  case (Cons x rs)
  have lx: "length x = n" using Cons.prems(2) by simp
  have lr: "length (map2 max r x) = n" using Cons.prems(1) lx by simp
  have IH: "length (fold (\<lambda>a b. map2 max b a) rs (map2 max r x)) = n
    \<and> (\<forall>c<n. fold (\<lambda>a b. map2 max b a) rs (map2 max r x) ! c
          = Max (insert (map2 max r x ! c) ((\<lambda>x. x ! c) ` set rs)))"
    using Cons.IH [OF lr] Cons.prems(2) by simp
  have "Max (insert (map2 max r x ! c) ((\<lambda>x. x ! c) ` set rs))
      = Max (insert (r ! c) ((\<lambda>x. x ! c) ` set (x # rs)))" if "c < n" for c
  proof -
    have "map2 max r x ! c = max (r ! c) (x ! c)"
      using that Cons.prems(1) lx by simp
    moreover have "Max (insert (max (r ! c) (x ! c)) S) = Max (insert (r ! c) (insert (x ! c) S))"
      if "finite S" for S
      using that by (cases "S = {}") (simp_all add: max.assoc)
    ultimately show ?thesis by simp
  qed
  with IH show ?case by simp
qed

lemma np_max_axis0_Max:
  assumes "rows \<noteq> []" "\<And>x. x \<in> set rows \<Longrightarrow> length x = 3"
  shows "np_max_axis0 rows = Inr (map (\<lambda>c. Max ((\<lambda>x. x ! c) ` set rows)) [0..<3])"
proof -
  from assms(1) obtain r rs where rows: "rows = r # rs"
    by (cases rows) auto
  have "length (fold (\<lambda>a b. map2 max b a) rs r) = 3
    \<and> (\<forall>c<3. fold (\<lambda>a b. map2 max b a) rs r ! c = Max (insert (r ! c) ((\<lambda>x. x ! c) ` set rs)))"
    using assms(2) rows by (intro fold_map2_max) simp_all
  then have "fold (\<lambda>a b. map2 max b a) rs r = map (\<lambda>c. Max ((\<lambda>x. x ! c) ` set rows)) [0..<3]"
    by (intro nth_equalityI) (simp_all add: rows)
  then show ?thesis
    by (simp add: np_max_axis0_def rows)
qed

lemma py_int_floor: "0 \<le> x \<Longrightarrow> py_int x = \<lfloor>x\<rfloor>"
  by (simp add: py_int_def)

lemma search_idx_take:
  assumes "wf_grid dark_ch M N" "0 < M" "0 \<le> p"
  shows "search_idx dark_ch p
     = take (nat \<lfloor>real (M * N) * p\<rfloor>) (argsort (map uminus (concat dark_ch)))"
  using assms
  by (simp add: search_idx_def wf_grid_shape2 [OF assms(1,2)] slice_to_def py_int_floor)

lemma search_idx_props:
  assumes "wf_grid dark_ch M N" "0 < M" "0 \<le> p"
  shows "length (search_idx dark_ch p) = min (M * N) (nat \<lfloor>real (M * N) * p\<rfloor>)"
    and "distinct (search_idx dark_ch p)"
    and "set (search_idx dark_ch p) \<subseteq> {..<M * N}"
    and "\<And>s u. s \<in> set (search_idx dark_ch p) \<Longrightarrow> u < M * N \<Longrightarrow> u \<notin> set (search_idx dark_ch p)
           \<Longrightarrow> concat dark_ch ! u \<le> concat dark_ch ! s"
proof -
  let ?a = "map uminus (concat dark_ch)"
  let ?k = "nat \<lfloor>real (M * N) * p\<rfloor>"
  have si: "search_idx dark_ch p = take ?k (argsort ?a)"
    by (rule search_idx_take [OF assms])
  have la: "length ?a = M * N"
    using wf_grid_flat [OF assms(1)] by simp
  show "length (search_idx dark_ch p) = min (M * N) ?k"
    using wf_grid_flat [OF assms(1)] by (simp add: si length_argsort)
  show "distinct (search_idx dark_ch p)"
    by (simp add: si distinct_argsort)
  show "set (search_idx dark_ch p) \<subseteq> {..<M * N}"
    using set_take_subset [of ?k "argsort ?a"] set_argsort [of ?a] la unfolding si by auto
  show "concat dark_ch ! u \<le> concat dark_ch ! s"
    if "s \<in> set (search_idx dark_ch p)" "u < M * N" "u \<notin> set (search_idx dark_ch p)" for s u
  proof -
    have "s < M * N"
      using that(1) set_take_subset [of ?k "argsort ?a"] set_argsort [of ?a] la unfolding si by auto
    moreover have "?a ! s \<le> ?a ! u"
      using argsort_take_smallest [of s ?k ?a u] that la unfolding si by simp
    ultimately show ?thesis
      using that(2) la by simp
  qed
qed

lemma get_atmosphere_value:
  assumes "wf_image I M N" "wf_grid dark_ch M N" "1 \<le> \<lfloor>real (M * N) * p\<rfloor>"
  shows "get_atmosphere I dark_ch p
     = Inr (map (\<lambda>c. Max ((\<lambda>s. concat I ! s ! c) ` set (search_idx dark_ch p))) [0..<3])"
proof -
  have MN: "0 < M * N"
  proof (rule ccontr)
    assume "\<not> 0 < M * N"
    then have mn0: "M * N = 0" by simp
    have "\<lfloor>real (M * N) * p\<rfloor> = 0"
      unfolding mn0 by simp
    with assms(3) show False by linarith
  qed
  then have M: "0 < M" by simp
  have p: "0 \<le> p"
  proof (rule ccontr)
    assume "\<not> 0 \<le> p"
    then have "real (M * N) * p \<le> 0"
      by (simp add: mult_le_0_iff)
    then have "\<lfloor>real (M * N) * p\<rfloor> \<le> 0" by (simp add: floor_le_zero)
    with assms(3) show False by simp
  qed
  note props = search_idx_props [OF assms(2) M p]
  have "0 < nat \<lfloor>real (M * N) * p\<rfloor>"
    using assms(3) by linarith
  then have "0 < length (search_idx dark_ch p)"
    unfolding props(1) using MN by linarith
  then have ne: "search_idx dark_ch p \<noteq> []"
    by auto
  let ?rows = "map (\<lambda>i. concat I ! i) (search_idx dark_ch p)"
  have len3: "length x = 3" if "x \<in> set ?rows" for x
  proof -
    from that obtain s where "s \<in> set (search_idx dark_ch p)" "x = concat I ! s" by auto
    then have "x \<in> set (concat I)"
      using props(3) wf_image_flat(1) [OF assms(1)] by (auto simp del: set_concat)
    then show ?thesis by (rule wf_image_flat(2) [OF assms(1)])
  qed
  have "np_max_axis0 ?rows = Inr (map (\<lambda>c. Max ((\<lambda>x. x ! c) ` set ?rows)) [0..<3])"
    using ne len3 by (intro np_max_axis0_Max) simp_all
  moreover have "(\<lambda>x. x ! c) ` set ?rows = (\<lambda>s. concat I ! s ! c) ` set (search_idx dark_ch p)" for c
    by (simp add: image_image)
  ultimately show ?thesis
    by (simp add: get_atmosphere_def wf_grid_shape2 [OF assms(2) M] wf_image_flat(3) [OF assms(1)])
qed

lemma get_atmosphere_empty:
  assumes "shape2 dark_ch = (M, N)" "\<lfloor>real (M * N) * p\<rfloor> = 0"
  shows "get_atmosphere I dark_ch p = Inl ValueError"
proof -
  have "0 \<le> real (M * N) * p"
    using assms(2) by (metis floor_less_zero less_irrefl not_le)
  then have "py_int (real (M * N) * p) = 0"
    using assms(2) by (simp add: py_int_floor)
  then have "search_idx dark_ch p = []"
    by (simp add: search_idx_def assms(1) slice_to_def)
  then show ?thesis
    by (simp add: get_atmosphere_def assms(1) np_max_axis0_def Let_def)
qed


subsection \<open>The stages of the pipeline\<close>

text \<open>
  What a successful run of \<open>dehaze_raw\<close> says about its stages, when the stages
  succeed, and when they fail.
\<close>

lemma dehaze_raw_Inr:
  assumes "dehaze_raw gf I t_min atm_max w p omega guided r eps = Inr (Idark, A, rawt, refinedt)"
  shows "get_dark_channel I w = Inr Idark"
    and "\<exists>atm. get_atmosphere I Idark p = Inr atm \<and> A = map (\<lambda>a. min a atm_max) atm"
    and "\<exists>rawt0. get_transmission I A omega w = Inr rawt0 \<and> rawt = map (map (\<lambda>t. np_maximum t t_min)) rawt0"
    and "\<not> guided \<Longrightarrow> refinedt = rawt"
    and "guided \<Longrightarrow> \<exists>normI. normalize I = Inr normI \<and> gf normI rawt r eps = Inr refinedt"
  using assms
  by (auto simp: dehaze_raw_def Let_def split: sum.splits if_splits)

lemma dehaze_raw_unguided:
  assumes "get_dark_channel I w = Inr Idark" "get_atmosphere I Idark p = Inr atm"
    "get_transmission I (map (\<lambda>a. min a atm_max) atm) omega w = Inr rawt0"
  shows "dehaze_raw gf I t_min atm_max w p omega False r eps
    = Inr (Idark, map (\<lambda>a. min a atm_max) atm, map (map (\<lambda>t. np_maximum t t_min)) rawt0,
           map (map (\<lambda>t. np_maximum t t_min)) rawt0)"
  using assms by (simp add: dehaze_raw_def Let_def)

lemma wf_div_image:
  assumes "wf_image I M N" "length A = 3"
  shows "wf_image (div_image I A) M N"
  using assms by (auto simp: wf_image_def div_image_def list_all_iff)

lemma get_transmission_value:
  assumes "wf_image I M N" "0 < M" "0 < N" "0 < w" "length A = 3"
  shows "get_transmission I A omega w
     = Inr (map (\<lambda>i. map (\<lambda>j.
         fsub_from 1 (fscale omega (dark_channel_spec (div_image I A) w i j))) [0..<N]) [0..<M])"
  using get_dark_channel_spec [OF wf_div_image [OF assms(1,5)] assms(2-4)]
  by (simp add: get_transmission_def comp_def)

lemma collect_hd_Inl:
  "xs \<noteq> [] \<Longrightarrow> g (hd xs) = Inl e \<Longrightarrow> collect (map g xs) = Inl e"
  by (cases xs) simp_all

lemma get_dark_channel_nonpositive:
  assumes "wf_image I M N" "0 < M" "0 < N" "w \<le> 0"
  shows "get_dark_channel I w = Inl ValueError"
proof (cases "w = 0")
  case True
  have cell: "np_min (concat (concat (window P i j (nat 0)))) = Inl ValueError" for P i j
    by (simp add: window_def np_min_def)
  have row: "collect (map (\<lambda>j. np_min (concat (concat (window P i j (nat 0))))) [0..<N]) = Inl ValueError"
    for P i
    using assms(3) cell by (rule_tac collect_hd_Inl) simp_all
  have "collect (map (\<lambda>i. collect (map (\<lambda>j. np_min (concat (concat (window P i j (nat 0))))) [0..<N])) [0..<M])
    = Inl ValueError" for P
    using assms(2) row by (rule_tac collect_hd_Inl) simp_all
  then show ?thesis
    using True by (simp add: get_dark_channel_def wf_image_shape2 [OF assms(1,2)] np_pad_def)
next
  case False
  with assms(4) have "w div 2 < 0" by linarith
  then show ?thesis
    by (simp add: get_dark_channel_def wf_image_shape2 [OF assms(1,2)] np_pad_def)
qed

lemma wf_grid_map_upt: "wf_grid (map (\<lambda>i. map (f i) [0..<N]) [0..<M]) M N"
  by (simp add: wf_grid_def list_all_iff)

lemma edge_at_in_image:
  assumes "wf_image I M N" "0 < M" "0 < N"
  shows "edge_at I y x \<in> set (concat I)"
proof -
  have "clamp_index M y < length I"
    using clamp_index_less [OF assms(2)] assms(1) by (simp add: wf_image_def)
  moreover have "clamp_index N x < length (I ! clamp_index M y)"
    using clamp_index_less [OF assms(3)] wf_image_rows [OF assms(1) clamp_index_less [OF assms(2)]]
    by simp
  ultimately have "I ! clamp_index M y ! clamp_index N x \<in> set (concat I)"
    by (metis UN_I nth_mem set_concat)
  then show ?thesis
    by (simp only: edge_at_def wf_image_shape2 [OF assms(1,2)] Let_def prod.case)
qed

lemma dark_channel_spec_in:
  assumes "wf_image I M N" "0 < M" "0 < N" "i < M" "j < N" "0 < w"
  shows "dark_channel_spec I w i j \<in> set (concat (concat I))"
proof -
  let ?W = "concat (concat (map (\<lambda>dy. map (\<lambda>dx. edge_at I (int i + dy) (int j + dx))
         (window_offsets w)) (window_offsets w)))"
  have "?W \<noteq> []"
    by (rule window_nonempty [OF assms])
  then have "Min (set ?W) \<in> set ?W"
    by (intro Min_in) (simp_all only: List.finite_set set_empty not_False_eq_True)
  moreover have "set ?W \<subseteq> set (concat (concat I))"
  proof
    fix v assume "v \<in> set ?W"
    then obtain dy dx where "v \<in> set (edge_at I (int i + dy) (int j + dx))"
      by auto
    with edge_at_in_image [OF assms(1-3)] show "v \<in> set (concat (concat I))"
      by (metis UN_I set_concat)
  qed
  ultimately show ?thesis
    unfolding dark_channel_spec_def by blast
qed


subsection \<open>Nonnegative images\<close>

text \<open>
  Dividing a nonnegative image by a positive light gives nonnegative numbers, and so is
  every cell of its dark channel.
\<close>

lemma nonneg_image_iff: "nonneg_image I \<longleftrightarrow> (\<forall>v\<in>set (concat (concat I)). 0 \<le> v)"
  by (auto simp: nonneg_image_def list_all_iff)

lemma nonneg_div_image:
  assumes "nonneg_image I" "\<And>a. a \<in> set A \<Longrightarrow> 0 < a" "t \<in> set (concat (concat (div_image I A)))"
  shows "\<exists>x. t = Fin x \<and> 0 \<le> x"
proof -
  from assms(3) obtain row px v a
    where in_I: "row \<in> set I" "px \<in> set row" "(v, a) \<in> set (zip px A)" and t: "t = fdiv v a"
    by (auto simp: div_image_def)
  have "v \<in> set px" "a \<in> set A"
    using in_I(3) by (auto dest: set_zip_leftD set_zip_rightD)
  then have "0 \<le> v" "0 < a"
    using assms(1,2) in_I(1,2) by (auto simp: nonneg_image_def list_all_iff)
  then have "t = Fin (v / a)" "0 \<le> v / a"
    using t by (simp_all add: fdiv_def)
  then show ?thesis by blast
qed

lemma dark_channel_spec_nonneg:
  assumes "wf_image I M N" "0 < M" "0 < N" "i < M" "j < N" "0 < w"
    and "nonneg_image I" "length A = 3" "\<And>a. a \<in> set A \<Longrightarrow> 0 < a"
  shows "\<exists>x. dark_channel_spec (div_image I A) w i j = Fin x \<and> 0 \<le> x"
  using dark_channel_spec_in [OF wf_div_image [OF assms(1,8)] assms(2-6)]
    nonneg_div_image [OF assms(7,9)] by blast

subsection \<open>Complete runs\<close>

lemma floor_ge_one_pos:
  assumes "1 \<le> \<lfloor>real (M * N) * p\<rfloor>"
  shows "0 < M" and "0 < N"
proof -
  have "0 < M * N"
  proof (rule ccontr)
    assume "\<not> 0 < M * N"
    then have mn0: "M * N = 0" by simp
    have "\<lfloor>real (M * N) * p\<rfloor> = 0"
      unfolding mn0 by simp
    with assms show False by linarith
  qed
  then show "0 < M" and "0 < N" by simp_all
qed

lemma dehaze_raw_unguided_runs:
  assumes "wf_image I M N" "0 < w" "1 \<le> \<lfloor>real (M * N) * p\<rfloor>"
  shows "\<exists>Idark A rawt. dehaze_raw gf I t_min atm_max w p omega False r eps = Inr (Idark, A, rawt, rawt)
     \<and> wf_grid Idark M N \<and> length A = 3 \<and> wf_grid rawt M N"
proof -
  note MN = floor_ge_one_pos [OF assms(3)]
  let ?d = "map (\<lambda>i. map (\<lambda>j. dark_channel_spec I w i j) [0..<N]) [0..<M]"
  let ?atm = "map (\<lambda>c. Max ((\<lambda>s. concat I ! s ! c) ` set (search_idx ?d p))) [0..<3]"
  let ?A = "map (\<lambda>a. min a atm_max) ?atm"
  let ?t = "map (\<lambda>i. map (\<lambda>j.
      fsub_from 1 (fscale omega (dark_channel_spec (div_image I ?A) w i j))) [0..<N]) [0..<M]"
  have d: "get_dark_channel I w = Inr ?d"
    by (rule get_dark_channel_spec [OF assms(1) MN assms(2)])
  have wd: "wf_grid ?d M N"
    by (rule wf_grid_map_upt)
  have a: "get_atmosphere I ?d p = Inr ?atm"
    by (rule get_atmosphere_value [OF assms(1) wd assms(3)])
  have lA: "length ?A = 3" by simp
  have t: "get_transmission I ?A omega w = Inr ?t"
    by (rule get_transmission_value [OF assms(1) MN assms(2) lA])
  have "wf_grid (map (map (\<lambda>t. np_maximum t t_min)) ?t) M N"
    by (simp add: wf_grid_def list_all_iff)
  with dehaze_raw_unguided [OF d a t, of gf t_min r eps] wd lA show ?thesis
    by blast
qed

lemma dehaze_Inl:
  "dehaze_raw gf (map (map (map real)) img) t_min atm_max w p omega guided r eps = Inl e
    \<Longrightarrow> dehaze gf img t_min atm_max w p omega guided r eps = Inl e"
  by (simp add: dehaze_def)

lemma dehaze_raw_dark_fails:
  "get_dark_channel I w = Inl e \<Longrightarrow> dehaze_raw gf I t_min atm_max w p omega guided r eps = Inl e"
  by (simp add: dehaze_raw_def)

lemma dehaze_raw_atmosphere_fails:
  "get_dark_channel I w = Inr d \<Longrightarrow> get_atmosphere I d p = Inl e
    \<Longrightarrow> dehaze_raw gf I t_min atm_max w p omega guided r eps = Inl e"
  by (simp add: dehaze_raw_def)

lemma dehaze_unguided_same:
  assumes "dehaze gf img t_min atm_max w p omega False r eps = Inr (dark, rt, rft, rawrad, rerad)"
  shows "rt = rft \<and> rawrad = rerad"
proof -
  let ?I = "map (map (map real)) img"
  from assms obtain Idark A rawt refinedt where
    raw: "dehaze_raw gf ?I t_min atm_max w p omega False r eps = Inr (Idark, A, rawt, refinedt)"
    by (auto simp: dehaze_def Let_def split: sum.splits)
  have "refinedt = rawt"
    using dehaze_raw_Inr(4) [OF raw] by simp
  with assms raw show ?thesis
    by (auto simp: dehaze_def Let_def)
qed

subsection \<open>Successful runs\<close>

text \<open>
  A run of \<open>dehaze_raw\<close> that returns had a picture of at least one pixel, a positive
  window and an atmosphere light of three components; and where no component of the
  light is zero, every entry of the raw transmission is a number.
\<close>

lemma collect_Inr_nth:
  "collect xs = Inr vs \<Longrightarrow> length vs = length xs \<and> (\<forall>i<length xs. xs ! i = Inr (vs ! i))"
proof (induction xs arbitrary: vs)
  case Nil
  then show ?case by simp
next
  case (Cons x xs)
  from Cons.prems obtain v vs' where x: "x = Inr v" and c: "collect xs = Inr vs'" and vs: "vs = v # vs'"
    by (auto split: sum.splits)
  from Cons.IH [OF c] have "length vs' = length xs" "\<forall>i<length xs. xs ! i = Inr (vs' ! i)"
    by simp_all
  then show ?case
    using x vs by (auto simp: nth_Cons split: nat.splits)
qed

lemma get_dark_channel_wf_grid:
  assumes "get_dark_channel I w = Inr d" "wf_image I M N"
  shows "wf_grid d M N"
proof (cases "0 < M")
  case False
  then have "I = []"
    using assms(2) by (simp add: wf_image_def)
  then have "d = []"
    using assms(1) by (auto simp: get_dark_channel_def shape2_def split: sum.splits)
  then show ?thesis
    using False by (simp add: wf_grid_def)
next
  case True
  from assms(1) obtain padded where
    c: "collect (map (\<lambda>i. collect (map (\<lambda>j.
            np_min (concat (concat (window padded i j (nat w))))) [0..<N])) [0..<M]) = Inr d"
    by (auto simp: get_dark_channel_def wf_image_shape2 [OF assms(2) True] split: sum.splits)
  from collect_Inr_nth [OF c] have len: "length d = M"
    and rows: "\<forall>i<M. collect (map (\<lambda>j.
            np_min (concat (concat (window padded i j (nat w))))) [0..<N]) = Inr (d ! i)"
    by simp_all
  have "length (d ! i) = N" if "i < M" for i
    using rows that collect_Inr_nth [of _ "d ! i"] by fastforce
  then show ?thesis
    using len by (simp add: wf_grid_def list_all_length)
qed

lemma set_search_idx: "set (search_idx d p) \<subseteq> {..<length (concat d)}"
proof -
  have "set (slice_to k xs) \<subseteq> set xs" for k and xs :: "nat list"
    by (auto simp: slice_to_def dest: in_set_takeD)
  then have "set (search_idx d p) \<subseteq> set (argsort (map uminus (concat d)))"
    by (cases "shape2 d") (simp add: search_idx_def)
  then show ?thesis
    by (simp add: set_argsort)
qed

lemma get_atmosphere_length:
  assumes "get_atmosphere I d p = Inr atm" "wf_image I M N" "wf_grid d M N"
  shows "length atm = 3"
proof -
  let ?rows = "map (\<lambda>i. concat I ! i) (search_idx d p)"
  from assms(1) have mx: "np_max_axis0 ?rows = Inr atm"
    by (auto simp: get_atmosphere_def Let_def split: prod.splits if_splits)
  then have ne: "?rows \<noteq> []"
    by (auto simp: np_max_axis0_def)
  have "length x = 3" if "x \<in> set ?rows" for x
  proof -
    from that obtain s where s: "s \<in> set (search_idx d p)" "x = concat I ! s"
      by auto
    then have "s < length (concat I)"
      using set_search_idx [of d p] wf_grid_flat [OF assms(3)] wf_image_flat(1) [OF assms(2)]
      by auto
    then have "x \<in> set (concat I)"
      using s(2) by (simp del: set_concat)
    then show ?thesis
      by (rule wf_image_flat(2) [OF assms(2)])
  qed
  from np_max_axis0_Max [OF ne this] mx show ?thesis
    by simp
qed

lemma dehaze_raw_Inr_shape:
  assumes "dehaze_raw gf I t_min atm_max w p omega guided r eps = Inr (Idark, A, rawt, refinedt)"
    and "wf_image I M N"
  shows "0 < M" and "0 < N" and "0 < w" and "length A = 3"
proof -
  note d = dehaze_raw_Inr(1) [OF assms(1)]
  from dehaze_raw_Inr(2) [OF assms(1)] obtain atm
    where atm: "get_atmosphere I Idark p = Inr atm" "A = map (\<lambda>a. min a atm_max) atm"
    by blast
  have wd: "wf_grid Idark M N"
    by (rule get_dark_channel_wf_grid [OF d assms(2)])
  have MN: "0 < M \<and> 0 < N"
  proof (rule ccontr)
    assume "\<not> (0 < M \<and> 0 < N)"
    then have z: "M = 0 \<or> N = 0" by auto
    obtain M' N' where sh: "shape2 Idark = (M', N')"
      by (cases "shape2 Idark") auto
    have "M' * N' = 0"
    proof (cases "0 < M")
      case True
      with wf_grid_shape2 [OF wd True] sh z show ?thesis by simp
    next
      case False
      then have "Idark = []" using wd by (simp add: wf_grid_def)
      with sh show ?thesis by (simp add: shape2_def)
    qed
    then have "\<lfloor>real (M' * N') * p\<rfloor> = 0"
      by (simp only: of_nat_0 mult_zero_left floor_zero)
    from get_atmosphere_empty [OF sh this] atm(1) show False
      by simp
  qed
  then show M: "0 < M" and N: "0 < N" by simp_all
  show "0 < w"
  proof (rule ccontr)
    assume "\<not> 0 < w"
    then have "w \<le> 0" by simp
    from get_dark_channel_nonpositive [OF assms(2) M N this] d show False
      by simp
  qed
  show "length A = 3"
    using get_atmosphere_length [OF atm(1) assms(2) wd] atm(2) by simp
qed

lemma div_image_finite:
  assumes "0 \<notin> set A" "t \<in> set (concat (concat (div_image I A)))"
  shows "\<exists>x. t = Fin x"
proof -
  from assms(2) obtain px v a where "(v, a) \<in> set (zip px A)" and t: "t = fdiv v a"
    by (auto simp: div_image_def)
  then have "a \<in> set A"
    by (auto dest: set_zip_rightD)
  with assms(1) have "a \<noteq> 0" by auto
  with t show ?thesis by (simp add: fdiv_def)
qed

lemma get_transmission_finite:
  assumes "wf_image I M N" "0 < M" "0 < N" "0 < w" "length A = 3" "0 \<notin> set A"
    and "get_transmission I A omega w = Inr rawt0"
  shows "\<forall>row\<in>set rawt0. \<forall>t\<in>set row. \<exists>x. t = Fin x"
proof -
  have cell: "\<exists>x. fsub_from 1 (fscale omega (dark_channel_spec (div_image I A) w i j)) = Fin x"
    if "i < M" "j < N" for i j
  proof -
    from dark_channel_spec_in [OF wf_div_image [OF assms(1,5)] assms(2,3) that assms(4)]
      div_image_finite [OF assms(6)]
    obtain x where "dark_channel_spec (div_image I A) w i j = Fin x"
      by blast
    then show ?thesis by simp
  qed
  from get_transmission_value [OF assms(1-5), of omega] assms(7)
  have "rawt0 = map (\<lambda>i. map (\<lambda>j.
         fsub_from 1 (fscale omega (dark_channel_spec (div_image I A) w i j))) [0..<N]) [0..<M]"
    by simp
  with cell show ?thesis
    by auto
qed

section \<open>The end-to-end scenario\<close>

text \<open>
  C1: on the 4 by 4 image whose pixels are all (100, 100, 100), with \<open>w = 3\<close>,
  \<open>p = 0.5\<close>, \<open>omega = 0.95\<close>, \<open>t_min = 0.2\<close>, \<open>atm_max = 220\<close> and no guided filter,
  the dark channel is 100 everywhere, the atmosphere light is (100, 100, 100) and stays
  so under the clamp, the raw transmission is 0.05 everywhere and 0.2 once floored (both
  maps returned by \<open>dehaze_raw\<close>), and the radiance recovered with it is the input image.
\<close>

theorem constant_image_scenario:
  "get_dark_channel (replicate 4 (replicate 4 [100, 100, 100::real])) 3
     = Inr (replicate 4 (replicate 4 100))
   \<and> get_atmosphere (replicate 4 (replicate 4 [100, 100, 100]))
        (replicate 4 (replicate 4 100)) (1 / 2)
     = Inr [100, 100, 100]
   \<and> map (\<lambda>a. min a 220) [100, 100, 100] = [100, 100, 100::real]
   \<and> get_transmission (replicate 4 (replicate 4 [100, 100, 100])) [100, 100, 100]
        (95 / 100) 3
     = Inr (replicate 4 (replicate 4 (Fin (5 / 100))))
   \<and> dehaze_raw gf (replicate 4 (replicate 4 [100, 100, 100])) (2 / 10) 220 3 (1 / 2)
        (95 / 100) False r eps
     = Inr (replicate 4 (replicate 4 100), [100, 100, 100],
            replicate 4 (replicate 4 (Fin (2 / 10))), replicate 4 (replicate 4 (Fin (2 / 10))))
   \<and> get_radiance (replicate 4 (replicate 4 [100, 100, 100])) [100, 100, 100]
        (replicate 4 (replicate 4 (Fin (2 / 10))))
     = replicate 4 (replicate 4 [Fin 100, Fin 100, Fin 100])"
proof -
  have dark: "get_dark_channel (replicate 4 (replicate 4 [100, 100, 100::real])) 3
     = Inr (replicate 4 (replicate 4 100))"
    by code_simp
  have atm: "get_atmosphere (replicate 4 (replicate 4 [100, 100, 100]))
      (replicate 4 (replicate 4 100)) (1 / 2) = Inr [100, 100, 100]"
    by code_simp
  have clamp: "map (\<lambda>a. min a 220) [100, 100, 100] = [100, 100, 100::real]"
    by simp
  have raw: "get_transmission (replicate 4 (replicate 4 [100, 100, 100])) [100, 100, 100]
      (95 / 100) 3 = Inr (replicate 4 (replicate 4 (Fin (5 / 100))))"
    by code_simp
  have run: "dehaze_raw gf (replicate 4 (replicate 4 [100, 100, 100])) (2 / 10) 220 3
      (1 / 2) (95 / 100) False r eps
     = Inr (replicate 4 (replicate 4 100), [100, 100, 100],
            replicate 4 (replicate 4 (Fin (2 / 10))), replicate 4 (replicate 4 (Fin (2 / 10))))"
    by code_simp
  have rad: "get_radiance (replicate 4 (replicate 4 [100, 100, 100])) [100, 100, 100]
        (replicate 4 (replicate 4 (Fin (2 / 10))))
     = replicate 4 (replicate 4 [Fin 100, Fin 100, Fin 100])"
    by code_simp
  from dark atm clamp raw run rad show ?thesis by blast
qed

section \<open>The dark channel\<close>

text \<open>
  C2: for an \<open>M \<times> N \<times> 3\<close> image (with at least one row and one column) and a positive
  window size \<open>w\<close>, \<open>get_dark_channel\<close> returns the \<open>M \<times> N\<close> grid whose cell
  \<open>(i, j)\<close> is the least value, over the three channels, of the \<open>w \<times> w\<close> window around
  \<open>(i, j)\<close>, where a position outside the image reads the nearest border pixel. The
  window has \<open>w\<close> positions on each axis and, for odd \<open>w\<close>, reaches \<open>w div 2\<close>
  positions to either side of \<open>(i, j)\<close>. The entries need not be nonnegative.
\<close>

theorem get_dark_channel_windowed_min:
  assumes "wf_image (I::image) M N" and "0 < M" and "0 < N" and "0 < w"
  shows "get_dark_channel I w
           = Inr (map (\<lambda>i. map (\<lambda>j. dark_channel_spec I w i j) [0..<N]) [0..<M])
         \<and> length (window_offsets w) = nat w
         \<and> (odd w \<longrightarrow> window_offsets w = [- (w div 2) .. w div 2])"
proof -
  have "length (window_offsets w) = nat w"
    using assms(4) by (simp add: window_offsets_def)
  moreover have "window_offsets w = [- (w div 2) .. w div 2]" if "odd w"
  proof -
    from that have "(w - 1) div 2 = w div 2"
      by (elim oddE) simp
    then show ?thesis
      by (simp add: window_offsets_def)
  qed
  ultimately show ?thesis
    using get_dark_channel_spec [OF assms] by simp
qed

theorem get_dark_channel_windowed_min_witness:
  "wf_image [[[1, 2, 3], [4, 5, 6]], [[7, 8, 9], [10, 11, 0::real]]] 2 2
   \<and> (0::nat) < 2 \<and> (0::int) < 3 \<and> odd (3::int)
   \<and> get_dark_channel [[[1, 2, 3], [4, 5, 6]], [[7, 8, 9], [10, 11, 0::real]]] 3
       = Inr (map (\<lambda>i. map (\<lambda>j.
           dark_channel_spec [[[1, 2, 3], [4, 5, 6]], [[7, 8, 9], [10, 11, 0]]] 3 i j)
             [0..<2]) [0..<2])
   \<and> length (window_offsets 3) = nat 3
   \<and> window_offsets 3 = [- (3 div 2) .. 3 div 2]"
proof -
  have wf: "wf_image [[[1, 2, 3], [4, 5, 6]], [[7, 8, 9], [10, 11, 0::real]]] 2 2"
    by (simp add: wf_image_def)
  from get_dark_channel_windowed_min [OF wf, of 3] wf show ?thesis
    by simp
qed

section \<open>Atmosphere estimation\<close>

text \<open>
  C3: for an \<open>M \<times> N \<times> 3\<close> image, a dark channel of \<open>M \<times> N\<close> cells and a fraction
  \<open>p \<le> 1\<close> with \<open>floor (M * N * p) \<ge> 1\<close>, \<open>get_atmosphere\<close> selects exactly
  \<open>floor (M * N * p)\<close> distinct positions such that no position left out has a higher
  dark-channel value than a selected one, and returns the maximum, channel by channel,
  of the image pixels at the selected positions; the atmosphere light that
  \<open>dehaze_raw\<close> returns is that vector clamped, each component at most \<open>atm_max\<close>.
\<close>

theorem get_atmosphere_top_positions:
  assumes "wf_image I M N" and "wf_grid dark_ch M N" and "1 \<le> \<lfloor>real (M * N) * p\<rfloor>"
    and "p \<le> 1"
  shows "length (search_idx dark_ch p) = nat \<lfloor>real (M * N) * p\<rfloor>
    \<and> distinct (search_idx dark_ch p)
    \<and> set (search_idx dark_ch p) \<subseteq> {..<M * N}
    \<and> (\<forall>s\<in>set (search_idx dark_ch p). \<forall>u<M * N. u \<notin> set (search_idx dark_ch p)
          \<longrightarrow> concat dark_ch ! u \<le> concat dark_ch ! s)
    \<and> get_atmosphere I dark_ch p
        = Inr (map (\<lambda>c. Max ((\<lambda>s. concat I ! s ! c) ` set (search_idx dark_ch p))) [0..<3])
    \<and> (dehaze_raw gf I t_min atm_max w p omega guided r eps = Inr (Idark, A, rawt, refinedt)
        \<longrightarrow> (\<exists>atm. get_atmosphere I Idark p = Inr atm \<and> A = map (\<lambda>a. min a atm_max) atm)
          \<and> list_all (\<lambda>a. a \<le> atm_max) A)"
proof -
  have M: "0 < M"
    by (rule floor_ge_one_pos(1) [OF assms(3)])
  have p: "0 \<le> p"
  proof (rule ccontr)
    assume "\<not> 0 \<le> p"
    then have "real (M * N) * p \<le> 0"
      by (simp add: mult_le_0_iff)
    then have "\<lfloor>real (M * N) * p\<rfloor> \<le> 0"
      by (simp add: floor_le_zero)
    with assms(3) show False by simp
  qed
  note props = search_idx_props [OF assms(2) M p]
  have "real (M * N) * p \<le> real (M * N)"
    using assms(4) by (simp add: mult_left_le)
  then have "\<lfloor>real (M * N) * p\<rfloor> \<le> int (M * N)"
    by (simp add: floor_le_iff)
  then have "nat \<lfloor>real (M * N) * p\<rfloor> \<le> M * N"
    by linarith
  then have count: "length (search_idx dark_ch p) = nat \<lfloor>real (M * N) * p\<rfloor>"
    unfolding props(1) by simp
  have clamp: "(\<exists>atm. get_atmosphere I Idark p = Inr atm \<and> A = map (\<lambda>a. min a atm_max) atm)
      \<and> list_all (\<lambda>a. a \<le> atm_max) A"
    if "dehaze_raw gf I t_min atm_max w p omega guided r eps = Inr (Idark, A, rawt, refinedt)"
  proof -
    from dehaze_raw_Inr(2) [OF that] obtain atm
      where atm: "get_atmosphere I Idark p = Inr atm" "A = map (\<lambda>a. min a atm_max) atm"
      by blast
    then have "list_all (\<lambda>a. a \<le> atm_max) A"
      by (simp add: list_all_iff)
    with atm show ?thesis by blast
  qed
  show ?thesis
    using count props(2,3) props(4) get_atmosphere_value [OF assms(1-3)] clamp by blast
qed

theorem get_atmosphere_top_positions_witness:
  "wf_image [[[10, 20, 30], [200, 210, 220]], [[100, 100, 100], [250, 250, 250::real]]] 2 2
   \<and> wf_grid [[10, 200], [100, 250::real]] 2 2
   \<and> 1 \<le> \<lfloor>real (2 * 2) * (1 / 2)\<rfloor> \<and> (1 / 2::real) \<le> 1
   \<and> dehaze_raw (gf_stub []) [[[10, 20, 30], [200, 210, 220]], [[100, 100, 100], [250, 250, 250]]]
        (1 / 5) 220 1 (1 / 2) (19 / 20) False 40 (1 / 1000)
      = Inr ([[10, 200], [100, 250]], [220, 220, 220],
             [[Fin (421 / 440), Fin (1 / 5)], [Fin (25 / 44), Fin (1 / 5)]],
             [[Fin (421 / 440), Fin (1 / 5)], [Fin (25 / 44), Fin (1 / 5)]])
   \<and> search_idx [[10, 200], [100, 250]] (1 / 2) = [3, 1]
   \<and> length (search_idx [[10, 200], [100, 250]] (1 / 2)) = nat \<lfloor>real (2 * 2) * (1 / 2)\<rfloor>
   \<and> get_atmosphere [[[10, 20, 30], [200, 210, 220]], [[100, 100, 100], [250, 250, 250]]]
        [[10, 200], [100, 250]] (1 / 2)
      = Inr (map (\<lambda>c. Max ((\<lambda>s. concat [[[10, 20, 30], [200, 210, 220]],
                [[100, 100, 100], [250, 250, 250]]] ! s ! c)
              ` set (search_idx [[10, 200], [100, 250]] (1 / 2)))) [0..<3])
   \<and> concat [[10, 200], [100, 250::real]] ! 2 \<le> concat [[10, 200], [100, 250]] ! 1
   \<and> list_all (\<lambda>a. a \<le> 220) [220, 220, 220::real]"
proof -
  have wf: "wf_image [[[10, 20, 30], [200, 210, 220]], [[100, 100, 100], [250, 250, 250::real]]] 2 2"
    by (simp add: wf_image_def)
  have wg: "wf_grid [[10, 200], [100, 250::real]] 2 2"
    by (simp add: wf_grid_def)
  have fl: "1 \<le> \<lfloor>real (2 * 2) * (1 / 2)\<rfloor>"
    by simp
  have p1: "(1 / 2::real) \<le> 1"
    by simp
  have run: "dehaze_raw (gf_stub []) [[[10, 20, 30], [200, 210, 220]], [[100, 100, 100], [250, 250, 250]]]
        (1 / 5) 220 1 (1 / 2) (19 / 20) False 40 (1 / 1000)
      = Inr ([[10, 200], [100, 250]], [220, 220, 220],
             [[Fin (421 / 440), Fin (1 / 5)], [Fin (25 / 44), Fin (1 / 5)]],
             [[Fin (421 / 440), Fin (1 / 5)], [Fin (25 / 44), Fin (1 / 5)]])"
    by code_simp
  have sel: "search_idx [[10, 200], [100, 250]] (1 / 2) = [3, 1]"
    by code_simp
  from get_atmosphere_top_positions [OF wf wg fl p1, of "gf_stub []" "1 / 5" 220 1 "19 / 20" False
      40 "1 / 1000" "[[10, 200], [100, 250]]" "[220, 220, 220]"
      "[[Fin (421 / 440), Fin (1 / 5)], [Fin (25 / 44), Fin (1 / 5)]]"
      "[[Fin (421 / 440), Fin (1 / 5)], [Fin (25 / 44), Fin (1 / 5)]]"] wf wg fl p1 run sel
  show ?thesis
    by simp
qed

text \<open>
  C4: when \<open>floor (M * N * p) = 0\<close> no position is selected and \<open>get_atmosphere\<close>
  fails: the maximum over no pixel raises (NumPy's \<^verbatim>\<open>ValueError\<close>, the failure the
  specification calls an estimation error); no atmosphere light is returned.
\<close>

theorem get_atmosphere_empty_selection:
  assumes "shape2 dark_ch = (M, N)" and "\<lfloor>real (M * N) * p\<rfloor> = 0"
  shows "get_atmosphere I dark_ch p = Inl ValueError"
  using assms by (rule get_atmosphere_empty)

theorem get_atmosphere_empty_selection_witness:
  "shape2 [[10, 200], [100, 250::real]] = (2, 2) \<and> \<lfloor>real (2 * 2) * (1 / 5)\<rfloor> = 0
   \<and> get_atmosphere [[[10, 20, 30], [200, 210, 220]], [[100, 100, 100], [250, 250, 250]]]
        [[10, 200], [100, 250]] (1 / 5) = Inl ValueError"
proof -
  have sh: "shape2 [[10, 200], [100, 250::real]] = (2, 2)"
    by (simp add: shape2_def)
  have fl: "\<lfloor>real (2 * 2) * (1 / 5)\<rfloor> = 0"
    by simp
  from get_atmosphere_empty_selection [OF sh fl] sh fl show ?thesis
    by blast
qed

section \<open>Transmission\<close>

text \<open>
  C5 (as amended): \<open>get_transmission\<close> divides by \<open>A\<close> without looking at it and
  raises nothing on account of it. For a well-formed image, \<open>w > 0\<close> and every \<open>A\<close> of
  three components, be they positive, negative or zero, it returns \<open>1 - omega * d\<close>,
  with \<open>d\<close> the dark channel of \<open>I / A\<close>; a quotient by a zero component is
  \<^verbatim>\<open>inf\<close>, \<^verbatim>\<open>-inf\<close> or, for \<^verbatim>\<open>0 / 0\<close>, \<^verbatim>\<open>nan\<close>.
\<close>

theorem get_transmission_unchecked:
  assumes "wf_image I M N" and "0 < M" and "0 < N" and "0 < w" and "length A = 3"
  shows "get_transmission I A omega w
     = Inr (map (\<lambda>i. map (\<lambda>j.
         fsub_from 1 (fscale omega (dark_channel_spec (div_image I A) w i j))) [0..<N]) [0..<M])"
  by (rule get_transmission_value [OF assms])

theorem get_transmission_unchecked_witness:
  "wf_image [[[3, 2, 4::real]]] 1 1 \<and> (0::nat) < 1 \<and> (0::int) < 1 \<and> length [0, 4, 4::real] = 3
   \<and> get_transmission [[[3, 2, 4]]] [0, 4, 4] 1 1
     = Inr (map (\<lambda>i. map (\<lambda>j.
         fsub_from 1 (fscale 1 (dark_channel_spec (div_image [[[3, 2, 4]]] [0, 4, 4]) 1 i j)))
           [0..<1]) [0..<1])
   \<and> div_image [[[3, 2, 4]]] [0, 4, 4] = [[[PInf, Fin (1 / 2), Fin 1]]]
   \<and> get_transmission [[[3, 2, 4]]] [0, 4, 4] 1 1 = Inr [[Fin (1 / 2)]]"
proof -
  have wf: "wf_image [[[3, 2, 4::real]]] 1 1"
    by (simp add: wf_image_def)
  have q: "div_image [[[3, 2, 4]]] [0, 4, 4] = [[[PInf, Fin (1 / 2), Fin 1]]]"
    by code_simp
  have v: "get_transmission [[[3, 2, 4]]] [0, 4, 4] 1 1 = Inr [[Fin (1 / 2)]]"
    by code_simp
  from get_transmission_unchecked [OF wf, of 1 "[0, 4, 4]" 1] wf q v show ?thesis
    by simp
qed

theorem get_transmission_negative_counterexample:
  "get_transmission [[[1, 1, 1]]] [- 1, - 1, - 1] (19 / 20) 1 = Inr [[Fin (39 / 20)]]
   \<and> get_transmission [[[5, 7, 0]]] [5, 7, 0] (19 / 20) 1 = Inr [[NaN]]
   \<and> dehaze_raw (gf_stub []) [[[1, 1, 1]]] (1 / 5) (- 1) 1 1 (19 / 20) False 40 (1 / 1000)
     = Inr ([[1]], [- 1, - 1, - 1], [[Fin (39 / 20)]], [[Fin (39 / 20)]])"
proof -
  have "get_transmission [[[1, 1, 1]]] [- 1, - 1, - 1] (19 / 20) 1 = Inr [[Fin (39 / 20)]]"
    by code_simp
  moreover have "get_transmission [[[5, 7, 0]]] [5, 7, 0] (19 / 20) 1 = Inr [[NaN]]"
    by code_simp
  moreover have "dehaze_raw (gf_stub []) [[[1, 1, 1]]] (1 / 5) (- 1) 1 1 (19 / 20) False 40
      (1 / 1000) = Inr ([[1]], [- 1, - 1, - 1], [[Fin (39 / 20)]], [[Fin (39 / 20)]])"
    by code_simp
  ultimately show ?thesis by blast
qed

text \<open>
  C8: for a well-formed image with nonnegative entries, an atmosphere light of three
  positive components and \<open>omega1 \<le> omega2\<close>, the raw transmission map for \<open>omega2\<close> is
  cell by cell at most the one for \<open>omega1\<close>, and the cells of both are numbers; both
  maps exist whenever \<open>w > 0\<close> (for \<open>w \<le> 0\<close> neither does). The bounds 0 and 1 on
  \<open>omega\<close> are not needed.
\<close>

theorem get_transmission_antimono_omega:
  assumes "wf_image I M N" and "0 < M" and "0 < N" and "nonneg_image I"
    and "length A = 3" and "\<forall>a\<in>set A. 0 < a" and "omega1 \<le> omega2"
  shows "(0 < w \<longrightarrow> (\<exists>t1 t2. get_transmission I A omega1 w = Inr t1
             \<and> get_transmission I A omega2 w = Inr t2))
    \<and> (\<forall>t1 t2. get_transmission I A omega1 w = Inr t1 \<and> get_transmission I A omega2 w = Inr t2
          \<longrightarrow> wf_grid t1 M N \<and> wf_grid t2 M N
            \<and> (\<forall>i<M. \<forall>j<N. \<exists>x1 x2. t1 ! i ! j = Fin x1 \<and> t2 ! i ! j = Fin x2 \<and> x2 \<le> x1))"
proof (cases "0 < w")
  case True
  let ?J = "div_image I A"
  let ?t = "\<lambda>omega. map (\<lambda>i. map (\<lambda>j.
      fsub_from 1 (fscale omega (dark_channel_spec ?J w i j))) [0..<N]) [0..<M]"
  have val: "get_transmission I A omega w = Inr (?t omega)" for omega
    by (rule get_transmission_value [OF assms(1-3) True assms(5)])
  have le: "\<exists>x1 x2. ?t omega1 ! i ! j = Fin x1 \<and> ?t omega2 ! i ! j = Fin x2 \<and> x2 \<le> x1"
    if "i < M" "j < N" for i j
  proof -
    from dark_channel_spec_nonneg [OF assms(1-3) that True assms(4,5)] assms(6)
    obtain d where d: "dark_channel_spec ?J w i j = Fin d" "0 \<le> d"
      by blast
    have "omega1 * d \<le> omega2 * d"
      using assms(7) d(2) by (rule mult_right_mono)
    then show ?thesis
      using that d(1) by simp
  qed
  have "wf_grid (?t omega) M N" for omega
    by (rule wf_grid_map_upt)
  with val le show ?thesis
    by (metis True sum.inject(2))
next
  case False
  then have "get_dark_channel (div_image I A) w = Inl ValueError"
    using get_dark_channel_nonpositive [OF wf_div_image [OF assms(1,5)] assms(2,3)] by simp
  then have "get_transmission I A omega w = Inl ValueError" for omega
    by (simp add: get_transmission_def)
  with False show ?thesis by simp
qed

theorem get_transmission_antimono_omega_witness:
  "wf_image [[[10, 20, 30], [200, 210, 220]], [[100, 100, 100], [250, 250, 250::real]]] 2 2
   \<and> nonneg_image [[[10, 20, 30], [200, 210, 220]], [[100, 100, 100], [250, 250, 250]]]
   \<and> length [220, 220, 220::real] = 3 \<and> (1 / 2::real) \<le> 19 / 20 \<and> (0::int) < 1
   \<and> get_transmission [[[10, 20, 30], [200, 210, 220]], [[100, 100, 100], [250, 250, 250]]]
        [220, 220, 220] (1 / 2) 1
      = Inr [[Fin (43 / 44), Fin (6 / 11)], [Fin (17 / 22), Fin (19 / 44)]]
   \<and> get_transmission [[[10, 20, 30], [200, 210, 220]], [[100, 100, 100], [250, 250, 250]]]
        [220, 220, 220] (19 / 20) 1
      = Inr [[Fin (421 / 440), Fin (3 / 22)], [Fin (25 / 44), Fin (- (7 / 88))]]
   \<and> wf_grid [[Fin (43 / 44), Fin (6 / 11)], [Fin (17 / 22), Fin (19 / 44)]] 2 2
   \<and> wf_grid [[Fin (421 / 440), Fin (3 / 22)], [Fin (25 / 44), Fin (- (7 / 88))]] 2 2
   \<and> (421 / 440::real) \<le> 43 / 44 \<and> (3 / 22::real) \<le> 6 / 11
   \<and> (25 / 44::real) \<le> 17 / 22 \<and> (- (7 / 88)::real) \<le> 19 / 44"
proof -
  have wf: "wf_image [[[10, 20, 30], [200, 210, 220]], [[100, 100, 100], [250, 250, 250::real]]] 2 2"
    by (simp add: wf_image_def)
  have nn: "nonneg_image [[[10, 20, 30], [200, 210, 220]], [[100, 100, 100], [250, 250, 250]]]"
    by (simp add: nonneg_image_def)
  have pos: "\<forall>a\<in>set [220, 220, 220::real]. 0 < a"
    by simp
  have om: "(1 / 2::real) \<le> 19 / 20"
    by simp
  have t1: "get_transmission [[[10, 20, 30], [200, 210, 220]], [[100, 100, 100], [250, 250, 250]]]
        [220, 220, 220] (1 / 2) 1
      = Inr [[Fin (43 / 44), Fin (6 / 11)], [Fin (17 / 22), Fin (19 / 44)]]"
    by code_simp
  have t2: "get_transmission [[[10, 20, 30], [200, 210, 220]], [[100, 100, 100], [250, 250, 250]]]
        [220, 220, 220] (19 / 20) 1
      = Inr [[Fin (421 / 440), Fin (3 / 22)], [Fin (25 / 44), Fin (- (7 / 88))]]"
    by code_simp
  from get_transmission_antimono_omega [OF wf _ _ nn _ pos om, of 1] wf nn pos om t1 t2
  show ?thesis
    by (simp add: wf_grid_def)
qed

section \<open>Refinement and the floor on the transmission\<close>

text \<open>
  C7: without the guided filter, the refined map that \<open>dehaze_raw\<close> returns is the raw
  transmission map (what \<open>get_transmission\<close> returns for the clamped atmosphere light)
  with each cell replaced by its maximum with \<open>t_min\<close>, as \<^verbatim>\<open>np.maximum\<close> takes it, and
  nothing else done to it.
\<close>

theorem refined_unguided_is_clamp:
  assumes "dehaze_raw gf I t_min atm_max w p omega False r eps = Inr (Idark, A, rawt, refinedt)"
  shows "\<exists>raw. get_transmission I A omega w = Inr raw
           \<and> refinedt = map (map (\<lambda>t. np_maximum t t_min)) raw"
proof -
  from dehaze_raw_Inr(3) [OF assms] obtain raw
    where "get_transmission I A omega w = Inr raw"
      "rawt = map (map (\<lambda>t. np_maximum t t_min)) raw"
    by blast
  moreover have "refinedt = rawt"
    using dehaze_raw_Inr(4) [OF assms] by simp
  ultimately show ?thesis by blast
qed

theorem refined_unguided_is_clamp_witness:
  "dehaze_raw (gf_stub []) [[[10, 20, 30], [200, 210, 220]], [[100, 100, 100], [250, 250, 250]]]
        (1 / 5) 220 1 (1 / 2) (19 / 20) False 40 (1 / 1000)
      = Inr ([[10, 200], [100, 250]], [220, 220, 220],
             [[Fin (421 / 440), Fin (1 / 5)], [Fin (25 / 44), Fin (1 / 5)]],
             [[Fin (421 / 440), Fin (1 / 5)], [Fin (25 / 44), Fin (1 / 5)]])
   \<and> (\<exists>raw. get_transmission [[[10, 20, 30], [200, 210, 220]], [[100, 100, 100], [250, 250, 250]]]
          [220, 220, 220] (19 / 20) 1 = Inr raw
        \<and> [[Fin (421 / 440), Fin (1 / 5)], [Fin (25 / 44), Fin (1 / 5)]]
            = map (map (\<lambda>t. np_maximum t (1 / 5))) raw)"
proof -
  have run: "dehaze_raw (gf_stub []) [[[10, 20, 30], [200, 210, 220]], [[100, 100, 100], [250, 250, 250]]]
        (1 / 5) 220 1 (1 / 2) (19 / 20) False 40 (1 / 1000)
      = Inr ([[10, 200], [100, 250]], [220, 220, 220],
             [[Fin (421 / 440), Fin (1 / 5)], [Fin (25 / 44), Fin (1 / 5)]],
             [[Fin (421 / 440), Fin (1 / 5)], [Fin (25 / 44), Fin (1 / 5)]])"
    by code_simp
  from refined_unguided_is_clamp [OF run] run show ?thesis
    by blast
qed

text \<open>
  C6 (as amended): \<open>dehaze\<close> divides by the two maps \<open>rawt\<close> and \<open>refinedt\<close> that
  \<open>dehaze_raw\<close> returns. On a well-formed picture, when no component of the clamped
  atmosphere light is zero, every cell of \<open>rawt\<close> is at least \<open>t_min\<close>, with or without
  the guided filter. Without it \<open>refinedt\<close> is \<open>rawt\<close>, so the same holds for
  \<open>refinedt\<close>. With it, \<open>refinedt\<close> is what the filter returns for the normalised image
  and \<open>rawt\<close>, passed on as it is: it is not clamped again.
\<close>

theorem transmission_floor:
  assumes "dehaze_raw gf I t_min atm_max w p omega guided r eps = Inr (Idark, A, rawt, refinedt)"
    and "wf_image I M N" and "0 \<notin> set A"
  shows "list_all (list_all (\<lambda>t. at_least t t_min)) rawt
    \<and> (\<not> guided \<longrightarrow> refinedt = rawt \<and> list_all (list_all (\<lambda>t. at_least t t_min)) refinedt)
    \<and> (guided \<longrightarrow> (\<exists>normI. normalize I = Inr normI \<and> gf normI rawt r eps = Inr refinedt))"
proof -
  note sh = dehaze_raw_Inr_shape [OF assms(1,2)]
  from dehaze_raw_Inr(3) [OF assms(1)] obtain raw
    where raw: "get_transmission I A omega w = Inr raw"
      and rawt: "rawt = map (map (\<lambda>t. np_maximum t t_min)) raw"
    by blast
  have fin: "\<forall>row\<in>set raw. \<forall>t\<in>set row. \<exists>x. t = Fin x"
    by (rule get_transmission_finite [OF assms(2) sh assms(3) raw])
  have "at_least (np_maximum t t_min) t_min" if "row \<in> set raw" "t \<in> set row" for row t
  proof -
    from fin that obtain x where "t = Fin x" by blast
    then show ?thesis by simp
  qed
  then have fl: "list_all (list_all (\<lambda>t. at_least t t_min)) rawt"
    unfolding rawt by (simp add: list_all_iff)
  show ?thesis
    using fl dehaze_raw_Inr(4,5) [OF assms(1)] by auto
qed

theorem transmission_floor_witness:
  "wf_image [[[10, 20, 30], [200, 210, 220]], [[100, 100, 100], [250, 250, 250::real]]] 2 2
   \<and> 0 \<notin> set [220, 220, 220::real]
   \<and> dehaze_raw (gf_stub [[Fin (1 / 4), Fin (1 / 4)], [Fin (1 / 4), Fin (1 / 4)]])
        [[[10, 20, 30], [200, 210, 220]], [[100, 100, 100], [250, 250, 250]]]
        (1 / 5) 220 1 (1 / 2) (19 / 20) True 40 (1 / 1000)
      = Inr ([[10, 200], [100, 250]], [220, 220, 220],
             [[Fin (421 / 440), Fin (1 / 5)], [Fin (25 / 44), Fin (1 / 5)]],
             [[Fin (1 / 4), Fin (1 / 4)], [Fin (1 / 4), Fin (1 / 4)]])
   \<and> dehaze_raw (gf_stub []) [[[10, 20, 30], [200, 210, 220]], [[100, 100, 100], [250, 250, 250]]]
        (1 / 5) 220 1 (1 / 2) (19 / 20) False 40 (1 / 1000)
      = Inr ([[10, 200], [100, 250]], [220, 220, 220],
             [[Fin (421 / 440), Fin (1 / 5)], [Fin (25 / 44), Fin (1 / 5)]],
             [[Fin (421 / 440), Fin (1 / 5)], [Fin (25 / 44), Fin (1 / 5)]])
   \<and> list_all (list_all (\<lambda>t. at_least t (1 / 5)))
        [[Fin (421 / 440), Fin (1 / 5)], [Fin (25 / 44), Fin (1 / 5)]]
   \<and> (\<exists>normI. normalize [[[10, 20, 30], [200, 210, 220]], [[100, 100, 100], [250, 250, 250]]]
          = Inr normI
        \<and> gf_stub [[Fin (1 / 4), Fin (1 / 4)], [Fin (1 / 4), Fin (1 / 4)]] normI
            [[Fin (421 / 440), Fin (1 / 5)], [Fin (25 / 44), Fin (1 / 5)]] 40 (1 / 1000)
          = Inr [[Fin (1 / 4), Fin (1 / 4)], [Fin (1 / 4), Fin (1 / 4)]])"
proof -
  have wf: "wf_image [[[10, 20, 30], [200, 210, 220]], [[100, 100, 100], [250, 250, 250::real]]] 2 2"
    by (simp add: wf_image_def)
  have nz: "0 \<notin> set [220, 220, 220::real]"
    by simp
  have g: "dehaze_raw (gf_stub [[Fin (1 / 4), Fin (1 / 4)], [Fin (1 / 4), Fin (1 / 4)]])
        [[[10, 20, 30], [200, 210, 220]], [[100, 100, 100], [250, 250, 250]]]
        (1 / 5) 220 1 (1 / 2) (19 / 20) True 40 (1 / 1000)
      = Inr ([[10, 200], [100, 250]], [220, 220, 220],
             [[Fin (421 / 440), Fin (1 / 5)], [Fin (25 / 44), Fin (1 / 5)]],
             [[Fin (1 / 4), Fin (1 / 4)], [Fin (1 / 4), Fin (1 / 4)]])"
    by code_simp
  have u: "dehaze_raw (gf_stub []) [[[10, 20, 30], [200, 210, 220]], [[100, 100, 100], [250, 250, 250]]]
        (1 / 5) 220 1 (1 / 2) (19 / 20) False 40 (1 / 1000)
      = Inr ([[10, 200], [100, 250]], [220, 220, 220],
             [[Fin (421 / 440), Fin (1 / 5)], [Fin (25 / 44), Fin (1 / 5)]],
             [[Fin (421 / 440), Fin (1 / 5)], [Fin (25 / 44), Fin (1 / 5)]])"
    by code_simp
  from transmission_floor [OF g wf nz] transmission_floor [OF u wf nz] wf nz g u show ?thesis
    by blast
qed

theorem transmission_nan_counterexample:
  "dehaze_raw (gf_stub []) [[[5, 7, 0]]] (1 / 5) 220 1 1 (19 / 20) False 40 (1 / 1000)
      = Inr ([[0]], [5, 7, 0], [[NaN]], [[NaN]])
   \<and> \<not> at_least NaN (1 / 5)
   \<and> dehaze (gf_stub []) [[[5, 7, 0]]] (1 / 5) 220 1 1 (19 / 20) False 40 (1 / 1000)
      = Inr ([[0]], [[0]], [[0]], [[[0, 0, 0]]], [[[0, 0, 0]]])"
proof -
  have a: "dehaze_raw (gf_stub []) [[[5, 7, 0]]] (1 / 5) 220 1 1 (19 / 20) False 40 (1 / 1000)
      = Inr ([[0]], [5, 7, 0], [[NaN]], [[NaN]])"
    by code_simp
  have a': "dehaze_raw (gf_stub []) (map (map (map real)) [[[5, 7, 0]]]) (1 / 5) 220 1 1
      (19 / 20) False 40 (1 / 1000) = Inr ([[0]], [5, 7, 0], [[NaN]], [[NaN]])"
    by code_simp
  have "dehaze (gf_stub []) [[[5, 7, 0]]] (1 / 5) 220 1 1 (19 / 20) False 40 (1 / 1000)
      = Inr ([[0]], [[0]], [[0]], [[[0, 0, 0]]], [[[0, 0, 0]]])"
    unfolding dehaze_def Let_def a'
    by (simp add: get_radiance_def to_img2_def to_img3_def cut_def max_color_val_def)
  with a show ?thesis by simp
qed

text \<open>
  C10: without the guided filter, the third component of the result of \<open>dehaze_raw\<close>,
  its raw transmission, is the map of \<open>get_transmission\<close> already clamped at \<open>t_min\<close>
  (the unclamped map is not returned), and \<open>dehaze\<close> returns the same picture twice for
  the two transmissions and for the two radiances.
\<close>

theorem unguided_outputs_coincide:
  "(dehaze_raw gf I t_min atm_max w p omega False r eps = Inr (Idark, A, rawt, refinedt)
      \<longrightarrow> (\<exists>raw. get_transmission I A omega w = Inr raw
             \<and> rawt = map (map (\<lambda>t. np_maximum t t_min)) raw))
   \<and> (dehaze gf img t_min atm_max w p omega False r eps = Inr (dark, rt, rft, rawrad, rerad)
      \<longrightarrow> rt = rft \<and> rawrad = rerad)"
proof -
  have "\<exists>raw. get_transmission I A omega w = Inr raw
      \<and> rawt = map (map (\<lambda>t. np_maximum t t_min)) raw"
    if "dehaze_raw gf I t_min atm_max w p omega False r eps = Inr (Idark, A, rawt, refinedt)"
    using that by (rule dehaze_raw_Inr(3))
  moreover have "rt = rft \<and> rawrad = rerad"
    if "dehaze gf img t_min atm_max w p omega False r eps = Inr (dark, rt, rft, rawrad, rerad)"
    using that by (rule dehaze_unguided_same)
  ultimately show ?thesis by blast
qed

theorem unguided_outputs_coincide_witness:
  "dehaze_raw (gf_stub []) [[[10, 20, 30], [200, 210, 220]], [[100, 100, 100], [250, 250, 250]]]
        (1 / 5) 220 1 (1 / 2) (19 / 20) False 40 (1 / 1000)
      = Inr ([[10, 200], [100, 250]], [220, 220, 220],
             [[Fin (421 / 440), Fin (1 / 5)], [Fin (25 / 44), Fin (1 / 5)]],
             [[Fin (421 / 440), Fin (1 / 5)], [Fin (25 / 44), Fin (1 / 5)]])
   \<and> dehaze (gf_stub []) [[[10, 20, 30], [200, 210, 220]], [[100, 100, 100], [250, 250, 250]]]
        (1 / 5) 220 1 (1 / 2) (19 / 20) False 40 (1 / 1000)
      = Inr ([[10, 200], [100, 250]], [[243, 51], [144, 51]], [[243, 51], [144, 51]],
             [[[0, 10, 21], [120, 170, 220]], [[8, 8, 8], [255, 255, 255]]],
             [[[0, 10, 21], [120, 170, 220]], [[8, 8, 8], [255, 255, 255]]])
   \<and> (\<exists>raw. get_transmission [[[10, 20, 30], [200, 210, 220]], [[100, 100, 100], [250, 250, 250]]]
          [220, 220, 220] (19 / 20) 1 = Inr raw
        \<and> [[Fin (421 / 440), Fin (1 / 5)], [Fin (25 / 44), Fin (1 / 5)]]
            = map (map (\<lambda>t. np_maximum t (1 / 5))) raw)"
proof -
  have a: "dehaze_raw (gf_stub []) [[[10, 20, 30], [200, 210, 220]], [[100, 100, 100], [250, 250, 250]]]
        (1 / 5) 220 1 (1 / 2) (19 / 20) False 40 (1 / 1000)
      = Inr ([[10, 200], [100, 250]], [220, 220, 220],
             [[Fin (421 / 440), Fin (1 / 5)], [Fin (25 / 44), Fin (1 / 5)]],
             [[Fin (421 / 440), Fin (1 / 5)], [Fin (25 / 44), Fin (1 / 5)]])"
    by code_simp
  have b: "dehaze (gf_stub []) [[[10, 20, 30], [200, 210, 220]], [[100, 100, 100], [250, 250, 250]]]
        (1 / 5) 220 1 (1 / 2) (19 / 20) False 40 (1 / 1000)
      = Inr ([[10, 200], [100, 250]], [[243, 51], [144, 51]], [[243, 51], [144, 51]],
             [[[0, 10, 21], [120, 170, 220]], [[8, 8, 8], [255, 255, 255]]],
             [[[0, 10, 21], [120, 170, 220]], [[8, 8, 8], [255, 255, 255]]])"
    by (simp add: dehaze_def a get_radiance_def to_img2_def to_img3_def cut_def
        max_color_val_def fdiv_def)
  from unguided_outputs_coincide [of "gf_stub []"
      "[[[10, 20, 30], [200, 210, 220]], [[100, 100, 100], [250, 250, 250]]]" "1 / 5" 220 1 "1 / 2"
      "19 / 20" 40 "1 / 1000" "[[10, 200], [100, 250]]" "[220, 220, 220]"
      "[[Fin (421 / 440), Fin (1 / 5)], [Fin (25 / 44), Fin (1 / 5)]]"
      "[[Fin (421 / 440), Fin (1 / 5)], [Fin (25 / 44), Fin (1 / 5)]]"
      "[[[10, 20, 30], [200, 210, 220]], [[100, 100, 100], [250, 250, 250]]]"
      "[[10, 200], [100, 250]]" "[[243, 51], [144, 51]]" "[[243, 51], [144, 51]]"
      "[[[0, 10, 21], [120, 170, 220]], [[8, 8, 8], [255, 255, 255]]]"
      "[[[0, 10, 21], [120, 170, 220]], [[8, 8, 8], [255, 255, 255]]]"] a b
  show ?thesis
    by blast
qed

section \<open>Parameters\<close>

text \<open>
  C9 (as amended): \<open>dehaze\<close> checks none of its parameters before the stages run, and
  there is no parameter error. On a well-formed picture with at least one pixel:
  \<^item> \<open>w \<le> 0\<close> makes the first stage, \<open>get_dark_channel\<close>, raise, and \<open>dehaze\<close> with it;
  \<^item> \<open>w > 0\<close> with \<open>floor (M * N * p) = 0\<close> (so \<open>p = 0\<close>, or \<open>p\<close> too small) lets the
    first stage compute the dark channel and makes the second, \<open>get_atmosphere\<close>,
    raise, and \<open>dehaze\<close> with it;
  \<^item> \<open>w > 0\<close> with \<open>floor (M * N * p) \<ge> 1\<close> and no guided filter returns the five
    pictures, whatever \<open>p\<close> (also above 1), \<open>t_min\<close>, \<open>atm_max\<close>, \<open>r\<close> and \<open>eps\<close> are.
  A run that raises returns nothing.
\<close>

theorem dehaze_validates_nothing:
  assumes "wf_image (map (map (map real)) img) M N" and "0 < M" and "0 < N"
  shows "(w \<le> 0 \<longrightarrow>
            get_dark_channel (map (map (map real)) img) w = Inl ValueError
          \<and> dehaze gf img t_min atm_max w p omega guided r eps = Inl ValueError)
    \<and> (0 < w \<and> \<lfloor>real (M * N) * p\<rfloor> = 0 \<longrightarrow>
            (\<exists>d. get_dark_channel (map (map (map real)) img) w = Inr d
                \<and> get_atmosphere (map (map (map real)) img) d p = Inl ValueError)
          \<and> dehaze gf img t_min atm_max w p omega guided r eps = Inl ValueError)
    \<and> (0 < w \<and> 1 \<le> \<lfloor>real (M * N) * p\<rfloor> \<longrightarrow>
            (\<exists>out. dehaze gf img t_min atm_max w p omega False r eps = Inr out))"
proof -
  let ?I = "map (map (map real)) img"
  have one: "get_dark_channel ?I w = Inl ValueError
      \<and> dehaze gf img t_min atm_max w p omega guided r eps = Inl ValueError" if "w \<le> 0"
  proof -
    have d: "get_dark_channel ?I w = Inl ValueError"
      by (rule get_dark_channel_nonpositive [OF assms that])
    from dehaze_Inl [OF dehaze_raw_dark_fails [OF d]] d show ?thesis
      by blast
  qed
  have two: "(\<exists>d. get_dark_channel ?I w = Inr d \<and> get_atmosphere ?I d p = Inl ValueError)
      \<and> dehaze gf img t_min atm_max w p omega guided r eps = Inl ValueError"
    if "0 < w" "\<lfloor>real (M * N) * p\<rfloor> = 0"
  proof -
    let ?d = "map (\<lambda>i. map (\<lambda>j. dark_channel_spec ?I w i j) [0..<N]) [0..<M]"
    have d: "get_dark_channel ?I w = Inr ?d"
      by (rule get_dark_channel_spec [OF assms that(1)])
    have "shape2 ?d = (M, N)"
      by (rule wf_grid_shape2 [OF wf_grid_map_upt assms(2)])
    then have a: "get_atmosphere ?I ?d p = Inl ValueError"
      using that(2) by (rule get_atmosphere_empty)
    from dehaze_Inl [OF dehaze_raw_atmosphere_fails [OF d a]] d a show ?thesis
      by blast
  qed
  have three: "\<exists>out. dehaze gf img t_min atm_max w p omega False r eps = Inr out"
    if "0 < w" "1 \<le> \<lfloor>real (M * N) * p\<rfloor>"
  proof -
    from dehaze_raw_unguided_runs [OF assms(1) that, of gf t_min atm_max omega r eps]
    obtain Idark A rawt
      where "dehaze_raw gf ?I t_min atm_max w p omega False r eps = Inr (Idark, A, rawt, rawt)"
      by blast
    then show ?thesis
      by (simp add: dehaze_def Let_def)
  qed
  from one two three show ?thesis
    by blast
qed

theorem dehaze_validates_nothing_witness:
  "wf_image (map (map (map real))
      [[[10, 20, 30], [200, 210, 220]], [[100, 100, 100], [250, 250, 250]]]) 2 2
   \<and> (0::nat) < 2 \<and> (0::int) \<le> 0 \<and> (0::int) < 1
   \<and> \<lfloor>real (2 * 2) * (1 / 5)\<rfloor> = 0 \<and> 1 \<le> \<lfloor>real (2 * 2) * 2\<rfloor>
   \<and> dehaze (gf_stub []) [[[10, 20, 30], [200, 210, 220]], [[100, 100, 100], [250, 250, 250]]]
        (1 / 5) 220 0 (1 / 2) (19 / 20) True 40 (1 / 1000) = Inl ValueError
   \<and> dehaze (gf_stub []) [[[10, 20, 30], [200, 210, 220]], [[100, 100, 100], [250, 250, 250]]]
        (1 / 5) 220 1 (1 / 5) (19 / 20) True 40 (1 / 1000) = Inl ValueError
   \<and> (\<exists>out. dehaze (gf_stub []) [[[10, 20, 30], [200, 210, 220]], [[100, 100, 100], [250, 250, 250]]]
        300 (- 7) 1 2 (19 / 20) False (- 3) (- 1) = Inr out)"
proof -
  have wf: "wf_image (map (map (map real))
      [[[10, 20, 30], [200, 210, 220]], [[100, 100, 100], [250, 250, 250]]]) 2 2"
    by (simp add: wf_image_def)
  have f0: "\<lfloor>real (2 * 2) * (1 / 5)\<rfloor> = 0"
    by simp
  have f1: "1 \<le> \<lfloor>real (2 * 2) * 2\<rfloor>"
    by simp
  from dehaze_validates_nothing [OF wf, of 0 "gf_stub []" "1 / 5" 220 "1 / 2" "19 / 20" True 40
      "1 / 1000"]
    dehaze_validates_nothing [OF wf, of 1 "gf_stub []" "1 / 5" 220 "1 / 5" "19 / 20" True 40
      "1 / 1000"]
    dehaze_validates_nothing [OF wf, of 1 "gf_stub []" 300 "- 7" 2 "19 / 20" True "- 3" "- 1"]
    wf f0 f1
  show ?thesis
    by simp
qed

theorem dehaze_accepts_counterexample:
  "dehaze (gf_stub []) [[[10, 20, 30], [200, 210, 220]], [[100, 100, 100], [250, 250, 250]]]
      (1 / 5) 220 1 2 (19 / 20) False 40 (1 / 1000)
    = Inr ([[10, 200], [100, 250]], [[243, 51], [144, 51]], [[243, 51], [144, 51]],
           [[[0, 10, 21], [120, 170, 220]], [[8, 8, 8], [255, 255, 255]]],
           [[[0, 10, 21], [120, 170, 220]], [[8, 8, 8], [255, 255, 255]]])
   \<and> dehaze_raw (gf_stub [])
        [[[10, 20, 30], [200, 210, 220]], [[100, 100, 100], [250, 250, 250]]]
        300 (- 7) 1 2 (19 / 20) False (- 3) (- 1)
    = Inr ([[10, 200], [100, 250]], [- 7, - 7, - 7],
           [[Fin 300, Fin 300], [Fin 300, Fin 300]], [[Fin 300, Fin 300], [Fin 300, Fin 300]])"
proof -
  have a: "dehaze_raw (gf_stub [])
      (map (map (map real)) [[[10, 20, 30], [200, 210, 220]], [[100, 100, 100], [250, 250, 250]]])
      (1 / 5) 220 1 2 (19 / 20) False 40 (1 / 1000)
    = Inr ([[10, 200], [100, 250]], [220, 220, 220],
           [[Fin (421 / 440), Fin (1 / 5)], [Fin (25 / 44), Fin (1 / 5)]],
           [[Fin (421 / 440), Fin (1 / 5)], [Fin (25 / 44), Fin (1 / 5)]])"
    by code_simp
  have "dehaze (gf_stub []) [[[10, 20, 30], [200, 210, 220]], [[100, 100, 100], [250, 250, 250]]]
      (1 / 5) 220 1 2 (19 / 20) False 40 (1 / 1000)
    = Inr ([[10, 200], [100, 250]], [[243, 51], [144, 51]], [[243, 51], [144, 51]],
           [[[0, 10, 21], [120, 170, 220]], [[8, 8, 8], [255, 255, 255]]],
           [[[0, 10, 21], [120, 170, 220]], [[8, 8, 8], [255, 255, 255]]])"
    unfolding dehaze_def Let_def a
    by (simp add: get_radiance_def to_img2_def to_img3_def cut_def max_color_val_def fdiv_def)
  moreover have "dehaze_raw (gf_stub [])
        [[[10, 20, 30], [200, 210, 220]], [[100, 100, 100], [250, 250, 250]]]
        300 (- 7) 1 2 (19 / 20) False (- 3) (- 1)
    = Inr ([[10, 200], [100, 250]], [- 7, - 7, - 7],
           [[Fin 300, Fin 300], [Fin 300, Fin 300]], [[Fin 300, Fin 300], [Fin 300, Fin 300]])"
    by code_simp
  ultimately show ?thesis by blast
qed

end
